theory Spec2Isabelle
  imports Main "HOL-Library.AList"
begin

section \<open>Records of the flat tables\<close>

text \<open>
  A row of a flat table is a JavaScript object. The properties the synchronisation code
  reads are fields of the record; every other own property is kept in \<open>props\<close> as
  name/value pairs. An absent (or \<open>undefined\<close>/\<open>null\<close>) property is \<open>None\<close>.
  Timestamps are milliseconds since the epoch, the value of \<open>Date.getTime()\<close>; a
  present timestamp is a valid instant.
\<close>

record item =
  item_id :: "string option"
  item_name :: "string option"
  updated_at :: "int option"
  user_id :: "string option"
  client_id :: "string option"
  case_id :: "string option"
  stage_id :: "string option"
  invoice_id :: "string option"
  clientId :: "string option"
  caseId :: "string option"
  props :: "(string \<times> string) list"

definition empty_item :: item where
  "empty_item = \<lparr> item_id = None, item_name = None, updated_at = None, user_id = None,
     client_id = None, case_id = None, stage_id = None, invoice_id = None,
     clientId = None, caseId = None, props = [] \<rparr>"

text \<open>The tables of \<open>FlatData\<close>, and the name each has as a property and in SQL.\<close>

datatype table =
  Clients | Cases | Stages | Sessions | AdminTasks | Appointments | AccountingEntries
  | Assistants | Invoices | InvoiceItems | CaseDocuments | Profiles | SiteFinances

primrec name_of_table :: "table \<Rightarrow> string" where
  "name_of_table Clients = ''clients''"
| "name_of_table Cases = ''cases''"
| "name_of_table Stages = ''stages''"
| "name_of_table Sessions = ''sessions''"
| "name_of_table AdminTasks = ''admin_tasks''"
| "name_of_table Appointments = ''appointments''"
| "name_of_table AccountingEntries = ''accounting_entries''"
| "name_of_table Assistants = ''assistants''"
| "name_of_table Invoices = ''invoices''"
| "name_of_table InvoiceItems = ''invoice_items''"
| "name_of_table CaseDocuments = ''case_documents''"
| "name_of_table Profiles = ''profiles''"
| "name_of_table SiteFinances = ''site_finances''"

text \<open>
  \<open>FlatData\<close> has one array per table and the code reads it by table name
  (\<open>(localFlatData as any)[table] || []\<close>): it is a function from tables to rows, a
  missing table being the empty list.
\<close>

type_synonym flat_data = "table \<Rightarrow> item list"

section \<open>The nested tree \<open>AppData\<close>\<close>

text \<open>
  A nested object is its own properties plus the array of its children: \<open>Stage\<close> adds
  \<open>sessions\<close>, \<open>Case\<close> adds \<open>stages\<close>, \<open>Client\<close> adds \<open>cases\<close>, \<open>Invoice\<close>
  adds \<open>items\<close>. The destructuring \<open>({ sessions, ...stage }) => stage\<close> is
  \<open>item.truncate\<close>; the spread \<open>{ ...st, sessions: xs }\<close> of a flat row is
  \<open>item.extend st (stage.fields xs)\<close>.
\<close>

record stage = item +
  sessions :: "item list"

record case_rec = item +
  stages :: "stage list"

record client = item +
  cases :: "case_rec list"

record invoice = item +
  items :: "item list"

record app_data =
  clients :: "client list"
  adminTasks :: "item list"
  appointments :: "item list"
  accountingEntries :: "item list"
  invoices :: "invoice list"
  assistants :: "string list"
  documents :: "item list"
  profiles :: "item list"
  siteFinances :: "item list"

section \<open>Entity mapper: \<open>flattenData\<close> and \<open>constructData\<close>\<close>

definition flat_cases :: "app_data \<Rightarrow> case_rec list" where
  "flat_cases d = concat (map (\<lambda>c. map (\<lambda>cs. cs\<lparr>client_id := item_id c\<rparr>) (cases c)) (clients d))"

definition flat_stages :: "app_data \<Rightarrow> stage list" where
  "flat_stages d = concat (map (\<lambda>cs. map (\<lambda>st. st\<lparr>case_id := item_id cs\<rparr>) (stages cs)) (flat_cases d))"

definition flat_sessions :: "app_data \<Rightarrow> item list" where
  "flat_sessions d = concat (map (\<lambda>st. map (\<lambda>s. s\<lparr>stage_id := item_id st\<rparr>) (sessions st)) (flat_stages d))"

definition flat_invoice_items :: "app_data \<Rightarrow> item list" where
  "flat_invoice_items d = concat (map (\<lambda>inv. map (\<lambda>it. it\<lparr>invoice_id := item_id inv\<rparr>) (items inv)) (invoices d))"

primrec flattenData :: "app_data \<Rightarrow> flat_data" where
  "flattenData d Clients = map item.truncate (clients d)"
| "flattenData d Cases = map item.truncate (flat_cases d)"
| "flattenData d Stages = map item.truncate (flat_stages d)"
| "flattenData d Sessions = flat_sessions d"
| "flattenData d AdminTasks = adminTasks d"
| "flattenData d Appointments = appointments d"
| "flattenData d AccountingEntries = accountingEntries d"
| "flattenData d Assistants = map (\<lambda>n. empty_item\<lparr>item_name := Some n\<rparr>) (assistants d)"
| "flattenData d Invoices = map item.truncate (invoices d)"
| "flattenData d InvoiceItems = flat_invoice_items d"
| "flattenData d CaseDocuments = documents d"
| "flattenData d Profiles = profiles d"
| "flattenData d SiteFinances = siteFinances d"

text \<open>
  The grouping loops of \<open>constructData\<close>:
  \<open>if (!m.has(k)) m.set(k, []); m.get(k)!.push(v)\<close>, and the lookup \<open>m.get(k) || []\<close>.
  The key is a foreign key, which may be absent.
\<close>

definition group_push :: "('k \<rightharpoonup> 'v list) \<Rightarrow> 'k \<Rightarrow> 'v \<Rightarrow> ('k \<rightharpoonup> 'v list)" where
  "group_push m k v = (case m k of None \<Rightarrow> m(k \<mapsto> [v]) | Some vs \<Rightarrow> m(k \<mapsto> vs @ [v]))"

definition group_by :: "('v \<Rightarrow> 'k) \<Rightarrow> 'v list \<Rightarrow> ('k \<rightharpoonup> 'v list)" where
  "group_by key xs = foldl (\<lambda>m v. group_push m (key v) v) Map.empty xs"

definition group_get :: "('k \<rightharpoonup> 'v list) \<Rightarrow> 'k \<Rightarrow> 'v list" where
  "group_get m k = (case m k of None \<Rightarrow> [] | Some vs \<Rightarrow> vs)"

text \<open>\<open>Array.from(new Set(names)).filter(Boolean)\<close>: first occurrences, in order,
  without the absent and the empty name.\<close>

definition set_add :: "'a list \<Rightarrow> 'a \<Rightarrow> 'a list" where
  "set_add seen x = (if x \<in> set seen then seen else seen @ [x])"

definition truthy_names :: "string option list \<Rightarrow> string list" where
  "truthy_names ns = concat (map (\<lambda>n. case n of None \<Rightarrow> [] | Some s \<Rightarrow> if s = [] then [] else [s]) ns)"

definition construct_stages :: "flat_data \<Rightarrow> stage list" where
  "construct_stages flatData =
     (let sessionMap = group_by stage_id (flatData Sessions)
      in map (\<lambda>st. item.extend st (stage.fields (group_get sessionMap (item_id st)))) (flatData Stages))"

definition construct_cases :: "flat_data \<Rightarrow> case_rec list" where
  "construct_cases flatData =
     (let stageMap = group_by case_id (construct_stages flatData)
      in map (\<lambda>cs. item.extend cs (case_rec.fields (group_get stageMap (item_id cs)))) (flatData Cases))"

definition constructData :: "flat_data \<Rightarrow> app_data" where
  "constructData flatData =
     (let caseMap = group_by client_id (construct_cases flatData);
          invoiceItemMap = group_by invoice_id (flatData InvoiceItems)
      in \<lparr> clients = map (\<lambda>c. item.extend c (client.fields (group_get caseMap (item_id c)))) (flatData Clients),
           adminTasks = flatData AdminTasks,
           appointments = flatData Appointments,
           accountingEntries = flatData AccountingEntries,
           invoices = map (\<lambda>inv. item.extend inv (invoice.fields (group_get invoiceItemMap (item_id inv)))) (flatData Invoices),
           assistants = truthy_names (foldl set_add [] (map item_name (flatData Assistants))),
           documents = flatData CaseDocuments,
           profiles = flatData Profiles,
           siteFinances = flatData SiteFinances \<rparr>)"

text \<open>\<open>new Date(x.updated_at || 0).getTime()\<close>: an absent timestamp is the epoch.\<close>

definition time_of :: "int option \<Rightarrow> int" where
  "time_of t = (case t of None \<Rightarrow> 0 | Some ms \<Rightarrow> ms)"

section \<open>Merge reconciler: \<open>mergeItems\<close>\<close>

text \<open>\<open>getPk = (item.id ?? item.name ?? '').toString()\<close>\<close>

definition getPk :: "'a item_scheme \<Rightarrow> string" where
  "getPk x = (case item_id x of Some i \<Rightarrow> i
              | None \<Rightarrow> (case item_name x of Some n \<Rightarrow> n | None \<Rightarrow> []))"

text \<open>The template string \<open>`${tableName}:${id}`\<close>.\<close>

definition table_key :: "string \<Rightarrow> string \<Rightarrow> string" where
  "table_key tableName k = tableName @ '':'' @ k"

text \<open>
  \<open>finalMap\<close> is a JavaScript \<open>Map\<close>: it iterates in insertion order and \<open>set\<close> on
  a key that is present replaces the value in place. It is an association list with
  \<open>AList.update\<close>. The accumulator of both loops is the pair of \<open>finalMap\<close> and
  \<open>toUpsert\<close>.
\<close>

type_synonym merge_acc = "(string \<times> item) list \<times> item list"

definition merge_local_step ::
  "item list \<Rightarrow> string set \<Rightarrow> string \<Rightarrow> merge_acc \<Rightarrow> item \<Rightarrow> merge_acc" where
  "merge_local_step remote deletedSet tableName acc localItem =
     (let k = getPk localItem in
      if k = [] then acc
      else if table_key tableName k \<in> deletedSet then acc
      else (case find (\<lambda>r. getPk r = k) remote of
              Some remoteItem \<Rightarrow>
                (let localDate = time_of (updated_at localItem);
                     remoteDate = time_of (updated_at remoteItem)
                 in if localDate > remoteDate + 1000
                    then (AList.update k localItem (fst acc), snd acc @ [localItem])
                    else (AList.update k remoteItem (fst acc), snd acc))
            | None \<Rightarrow> (AList.update k localItem (fst acc), snd acc @ [localItem])))"

definition merge_remote_step ::
  "string set \<Rightarrow> string \<Rightarrow> (string \<times> item) list \<Rightarrow> item \<Rightarrow> (string \<times> item) list" where
  "merge_remote_step deletedSet tableName finalMap remoteItem =
     (let k = getPk remoteItem in
      if k = [] \<or> k \<in> fst ` set finalMap then finalMap
      else if table_key tableName k \<notin> deletedSet then AList.update k remoteItem finalMap
      else finalMap)"

record merge_result =
  merged :: "item list"
  toUpsert :: "item list"

definition mergeItems ::
  "item list \<Rightarrow> item list \<Rightarrow> string set \<Rightarrow> string \<Rightarrow> merge_result" where
  "mergeItems local remote deletedSet tableName =
     (let acc = foldl (merge_local_step remote deletedSet tableName) ([], []) local;
          finalMap = foldl (merge_remote_step deletedSet tableName) (fst acc) remote
      in \<lparr> merged = map snd finalMap, toUpsert = snd acc \<rparr>)"

section \<open>Deletion ledger: \<open>applyDeletionsToLocal\<close> and the deleted keys\<close>

text \<open>
  A remote tombstone (\<open>SyncDeletion\<close>). \<open>deleted_at\<close> is an ISO string in the
  source, here the instant it denotes; \<open>None\<close> is a missing or empty string, which
  \<open>if (deletedAtStr)\<close> takes as no tombstone.
\<close>

record sync_deletion =
  table_name :: string
  record_id :: string
  deleted_at :: "int option"

text \<open>\<open>`${tableName}:${item.id ?? item.name}`\<close>: an object with neither property gives
  the text \<open>undefined\<close>.\<close>

definition pk_text :: "item \<Rightarrow> string" where
  "pk_text x = (case item_id x of Some i \<Rightarrow> i
                | None \<Rightarrow> (case item_name x of Some n \<Rightarrow> n | None \<Rightarrow> ''undefined''))"

definition deletionMap :: "sync_deletion list \<Rightarrow> (string \<rightharpoonup> int option)" where
  "deletionMap deletions =
     foldl (\<lambda>m d. m(table_key (table_name d) (record_id d) \<mapsto> deleted_at d)) Map.empty deletions"

definition survives :: "(string \<rightharpoonup> int option) \<Rightarrow> string \<Rightarrow> item \<Rightarrow> bool" where
  "survives dm tableName x =
     (case dm (table_key tableName (pk_text x)) of
        Some (Some deletedAt) \<Rightarrow>
          (let updatedAt = time_of (updated_at x)
           in if updatedAt < deletedAt + 2000 then False else True)
      | _ \<Rightarrow> True)"

definition filterItems :: "(string \<rightharpoonup> int option) \<Rightarrow> item list \<Rightarrow> string \<Rightarrow> item list" where
  "filterItems dm xs tableName = filter (survives dm tableName) xs"

text \<open>\<open>!e.clientId\<close>: absent or the empty string.\<close>

definition falsy :: "string option \<Rightarrow> bool" where
  "falsy v = (case v of None \<Rightarrow> True | Some s \<Rightarrow> s = [])"

definition applyDeletionsToLocal :: "flat_data \<Rightarrow> sync_deletion list \<Rightarrow> flat_data" where
  "applyDeletionsToLocal localFlatData deletions =
     (if deletions = [] then localFlatData
      else
        let dm = deletionMap deletions;
            clients' = filterItems dm (localFlatData Clients) ''clients'';
            clientIds = set (map item_id clients');
            cases' = filter (\<lambda>c. client_id c \<in> clientIds) (filterItems dm (localFlatData Cases) ''cases'');
            caseIds = set (map item_id cases');
            stages' = filter (\<lambda>s. case_id s \<in> caseIds) (filterItems dm (localFlatData Stages) ''stages'');
            stageIds = set (map item_id stages');
            sessions' = filter (\<lambda>s. stage_id s \<in> stageIds) (filterItems dm (localFlatData Sessions) ''sessions'');
            invoices' = filter (\<lambda>i. client_id i \<in> clientIds) (filterItems dm (localFlatData Invoices) ''invoices'');
            invoiceIds = set (map item_id invoices');
            invoice_items' = filter (\<lambda>i. invoice_id i \<in> invoiceIds) (filterItems dm (localFlatData InvoiceItems) ''invoice_items'');
            case_documents' = filter (\<lambda>d. caseId d \<in> caseIds) (filterItems dm (localFlatData CaseDocuments) ''case_documents'');
            accounting_entries' = filter (\<lambda>e. falsy (clientId e) \<or> clientId e \<in> clientIds)
                (filterItems dm (localFlatData AccountingEntries) ''accounting_entries'')
        in (\<lambda>t. case t of
              Clients \<Rightarrow> clients'
            | Cases \<Rightarrow> cases'
            | Stages \<Rightarrow> stages'
            | Sessions \<Rightarrow> sessions'
            | Invoices \<Rightarrow> invoices'
            | InvoiceItems \<Rightarrow> invoice_items'
            | CaseDocuments \<Rightarrow> case_documents'
            | AccountingEntries \<Rightarrow> accounting_entries'
            | AdminTasks \<Rightarrow> filterItems dm (localFlatData AdminTasks) ''admin_tasks''
            | Appointments \<Rightarrow> filterItems dm (localFlatData Appointments) ''appointments''
            | Assistants \<Rightarrow> filterItems dm (localFlatData Assistants) ''assistants''
            | SiteFinances \<Rightarrow> filterItems dm (localFlatData SiteFinances) ''site_finances''
            | Profiles \<Rightarrow> localFlatData Profiles))"

text \<open>
  \<open>DeletedIds\<close>: the locally pending deletions, one list of ids per property. The
  properties are those the code reads; \<open>documentPaths\<close> is the queue of blob paths.
\<close>

datatype del_key =
  D_clients | D_cases | D_stages | D_sessions | D_adminTasks | D_appointments
  | D_accountingEntries | D_assistants | D_invoices | D_invoiceItems | D_documents
  | D_siteFinances | D_documentPaths

type_synonym deleted_ids = "del_key \<Rightarrow> string list"

definition all_del_keys :: "del_key list" where
  "all_del_keys = [D_clients, D_cases, D_stages, D_sessions, D_adminTasks, D_appointments,
     D_accountingEntries, D_assistants, D_invoices, D_invoiceItems, D_documents,
     D_siteFinances, D_documentPaths]"

text \<open>The conditional chain of \<open>manualSync\<close> that turns a property of \<open>DeletedIds\<close> into
  a table name; a property it does not list keeps its own name.\<close>

primrec dbTable :: "del_key \<Rightarrow> string" where
  "dbTable D_adminTasks = ''admin_tasks''"
| "dbTable D_accountingEntries = ''accounting_entries''"
| "dbTable D_invoiceItems = ''invoice_items''"
| "dbTable D_siteFinances = ''site_finances''"
| "dbTable D_clients = ''clients''"
| "dbTable D_cases = ''cases''"
| "dbTable D_stages = ''stages''"
| "dbTable D_sessions = ''sessions''"
| "dbTable D_appointments = ''appointments''"
| "dbTable D_assistants = ''assistants''"
| "dbTable D_invoices = ''invoices''"
| "dbTable D_documents = ''documents''"
| "dbTable D_documentPaths = ''documentPaths''"

definition remote_deleted_keys :: "sync_deletion list \<Rightarrow> string set" where
  "remote_deleted_keys remoteDeletions =
     set (map (\<lambda>d. table_key (table_name d) (record_id d)) remoteDeletions)"

definition deletedKeys :: "sync_deletion list \<Rightarrow> deleted_ids \<Rightarrow> string set" where
  "deletedKeys remoteDeletions deletedIds =
     remote_deleted_keys remoteDeletions
     \<union> set (concat (map (\<lambda>k. map (table_key (dbTable k)) (deletedIds k)) all_del_keys))"

text \<open>The merge loop over the thirteen tables, as \<open>manualSync\<close> and \<open>fetchAndRefresh\<close>
  run it on the local tree, the fetched tables and the deleted keys.\<close>

definition merge_tables :: "flat_data \<Rightarrow> flat_data \<Rightarrow> string set \<Rightarrow> table \<Rightarrow> merge_result" where
  "merge_tables localFlatData remoteFlatData keys t =
     mergeItems (localFlatData t) (remoteFlatData t) keys (name_of_table t)"

section \<open>Remote gateway\<close>

text \<open>
  The remote store is outside the program. A run of the program sees it through the
  answers of its calls, which are the fields of \<open>env\<close>, and acts on it through the
  calls it issues, which are recorded in order as \<open>remote_op\<close>s. Rows read from the
  remote store are taken in the local shape, as \<open>transformRemoteToLocal\<close> returns them
  (it renames columns and converts dates, and keeps \<open>id\<close> and \<open>name\<close>).
\<close>

datatype remove_result =
  RemoveOk                        \<comment> \<open>\<open>{ error: null }\<close>\<close>
  | RemoveError "string option"   \<comment> \<open>\<open>{ error }\<close>, with its \<open>statusCode\<close>\<close>
  | RemoveThrows string           \<comment> \<open>the call rejects, with the message of the error\<close>

datatype schema_result =
  SchemaOk | SchemaUnconfigured | SchemaUninitialized | SchemaUnknown string

record env =
  client :: bool                                         \<comment> \<open>\<open>getSupabaseClient()\<close> is not null\<close>
  schema :: schema_result                                \<comment> \<open>result of \<open>checkSupabaseSchema\<close>\<close>
  select_rows :: "table \<Rightarrow> string + item list"         \<comment> \<open>\<open>from(t).select()\<close>: error message or rows\<close>
  select_deletions :: "string + sync_deletion list"      \<comment> \<open>\<open>from('sync_deletions').select()\<close>\<close>
  delete_rows :: "table \<Rightarrow> string option"              \<comment> \<open>\<open>from(t).delete().in(pk, ids)\<close>: error message\<close>
  upsert_rows :: "table \<Rightarrow> item list \<Rightarrow> string + item list"  \<comment> \<open>\<open>from(t).upsert(rows).select()\<close>\<close>
  storage_remove :: "string list \<Rightarrow> remove_result"     \<comment> \<open>\<open>storage.from('documents').remove(paths)\<close>\<close>

datatype remote_op =
  Delete table string "string option list"               \<comment> \<open>table, key column, ids\<close>
  | Upsert table "item list" "string option"             \<comment> \<open>table, rows, \<open>onConflict\<close>\<close>
  | StorageRemove "string list"

text \<open>A thrown \<open>Error\<close>: its message and the \<open>table\<close> property that
  \<open>deleteDataFromSupabase\<close> sets on it.\<close>

record sync_error =
  err_message :: string
  err_table :: "table option"

definition plain_error :: "string \<Rightarrow> sync_error" where
  "plain_error m = \<lparr> err_message = m, err_table = None \<rparr>"

subsection \<open>\<open>fetchDataFromSupabase\<close> and \<open>fetchDeletionsFromSupabase\<close>\<close>

definition fetch_names :: "table list" where
  "fetch_names = [Clients, AdminTasks, Appointments, AccountingEntries, Assistants, Invoices,
     Cases, Stages, Sessions, InvoiceItems, CaseDocuments, Profiles, SiteFinances]"

fun first_fetch_error :: "env \<Rightarrow> table list \<Rightarrow> sync_error option" where
  "first_fetch_error e [] = None"
| "first_fetch_error e (t # ts) =
     (case select_rows e t of
        Inl m \<Rightarrow> Some (plain_error (''Fetch '' @ name_of_table t @ '' failed: '' @ m))
      | Inr rows \<Rightarrow> first_fetch_error e ts)"

definition fetchDataFromSupabase :: "env \<Rightarrow> sync_error + flat_data" where
  "fetchDataFromSupabase e =
     (if \<not> client e then Inl (plain_error ''Supabase client not available.'')
      else case first_fetch_error e fetch_names of
             Some err \<Rightarrow> Inl err
           | None \<Rightarrow> Inr (\<lambda>t. case select_rows e t of Inr rows \<Rightarrow> rows | Inl m \<Rightarrow> []))"

definition fetchDeletionsFromSupabase :: "env \<Rightarrow> sync_deletion list" where
  "fetchDeletionsFromSupabase e =
     (if \<not> client e then []
      else case select_deletions e of Inl m \<Rightarrow> [] | Inr rows \<Rightarrow> rows)"

subsection \<open>\<open>deleteDataFromSupabase\<close>\<close>

definition deletionOrder :: "table list" where
  "deletionOrder = [CaseDocuments, InvoiceItems, Sessions, Stages, Cases, Invoices,
     AdminTasks, Appointments, AccountingEntries, Assistants, Clients, SiteFinances, Profiles]"

text \<open>
  For a table other than \<open>profiles\<close> the loop first builds the insert of the log entries
  into \<open>sync_deletions\<close> and calls \<open>.catch(() => {})\<close> on it. What
  \<open>from(...).insert(...).select()\<close> returns is the query builder, which has \<open>then\<close>
  and no \<open>catch\<close>: the call throws a \<open>TypeError\<close> before the insert is sent and
  before the delete. That error has no \<open>table\<close> property.
\<close>

definition catch_type_error :: sync_error where
  "catch_type_error = plain_error ''supabase.from(...).insert(...).select(...).catch is not a function''"

fun delete_loop ::
  "env \<Rightarrow> flat_data \<Rightarrow> string \<Rightarrow> table list \<Rightarrow> remote_op list \<Rightarrow> remote_op list \<times> (sync_error + unit)" where
  "delete_loop e deletions uid [] tr = (tr, Inr ())"
| "delete_loop e deletions uid (t # ts) tr =
     (let itemsToDelete = deletions t in
      if itemsToDelete \<noteq> [] then
        let pk = (if t = Assistants then ''name'' else ''id'');
            ids = map (\<lambda>i. if t = Assistants then item_name i else item_id i) itemsToDelete
        in if t \<noteq> Profiles then (tr, Inl catch_type_error)
           else (case delete_rows e t of
                   Some m \<Rightarrow> (tr @ [Delete t pk ids], Inl \<lparr> err_message = m, err_table = Some t \<rparr>)
                 | None \<Rightarrow> delete_loop e deletions uid ts (tr @ [Delete t pk ids]))
      else delete_loop e deletions uid ts tr)"

definition deleteDataFromSupabase ::
  "env \<Rightarrow> flat_data \<Rightarrow> string \<Rightarrow> remote_op list \<times> (sync_error + unit)" where
  "deleteDataFromSupabase e deletions uid =
     (if \<not> client e then ([], Inl (plain_error ''Supabase client not available.''))
      else delete_loop e deletions uid deletionOrder [])"

subsection \<open>\<open>upsertDataToSupabase\<close>\<close>

text \<open>Reading and writing a property kept in \<open>props\<close>; writing \<open>undefined\<close> leaves the
  property without a value.\<close>

definition put_prop :: "string \<Rightarrow> string option \<Rightarrow> (string \<times> string) list \<Rightarrow> (string \<times> string) list" where
  "put_prop k v ps = (case v of Some x \<Rightarrow> AList.update k x ps | None \<Rightarrow> AList.delete k ps)"

text \<open>\<open>{ ...x, dst: x.src }\<close> for each pair \<open>(dst, src)\<close>; the values are read from the
  record before the spread.\<close>

definition with_columns :: "(string \<times> string) list \<Rightarrow> item \<Rightarrow> item" where
  "with_columns cols x =
     x\<lparr>props := foldl (\<lambda>ps (dst, src). put_prop dst (map_of (props x) src) ps) (props x) cols\<rparr>"

primrec upsert_row :: "string \<Rightarrow> table \<Rightarrow> item \<Rightarrow> item" where
  "upsert_row uid Profiles p = p"
| "upsert_row uid Assistants a = a\<lparr>user_id := Some uid\<rparr>"
| "upsert_row uid Clients c =
     with_columns [(''contact_info'', ''contactInfo'')] (c\<lparr>user_id := Some uid\<rparr>)"
| "upsert_row uid Cases c =
     with_columns [(''client_name'', ''clientName''), (''opponent_name'', ''opponentName''),
       (''fee_agreement'', ''feeAgreement'')] (c\<lparr>user_id := Some uid\<rparr>)"
| "upsert_row uid Stages s =
     with_columns [(''case_number'', ''caseNumber''), (''first_session_date'', ''firstSessionDate''),
       (''decision_date'', ''decisionDate''), (''decision_number'', ''decisionNumber''),
       (''decision_summary'', ''decisionSummary''), (''decision_notes'', ''decisionNotes'')]
       (s\<lparr>user_id := Some uid\<rparr>)"
| "upsert_row uid Sessions s =
     empty_item\<lparr> item_id := item_id s, user_id := Some uid, stage_id := stage_id s,
       updated_at := updated_at s,
       props := foldl (\<lambda>ps (dst, src). put_prop dst (map_of (props s) src) ps) []
         [(''court'', ''court''), (''case_number'', ''caseNumber''), (''date'', ''date''),
          (''client_name'', ''clientName''), (''opponent_name'', ''opponentName''),
          (''postponement_reason'', ''postponementReason''),
          (''next_postponement_reason'', ''nextPostponementReason''),
          (''is_postponed'', ''isPostponed''), (''next_session_date'', ''nextSessionDate''),
          (''assignee'', ''assignee'')] \<rparr>"
| "upsert_row uid Invoices i =
     with_columns [(''client_name'', ''clientName''), (''case_subject'', ''caseSubject''),
       (''issue_date'', ''issueDate''), (''due_date'', ''dueDate''), (''tax_rate'', ''taxRate'')]
       (i\<lparr>user_id := Some uid, client_id := clientId i, case_id := caseId i\<rparr>)"
| "upsert_row uid InvoiceItems i = i\<lparr>user_id := Some uid\<rparr>"
| "upsert_row uid CaseDocuments d =
     with_columns [(''added_at'', ''addedAt''), (''storage_path'', ''storagePath'')]
       (d\<lparr>user_id := Some uid, case_id := caseId d\<rparr>)"
| "upsert_row uid AdminTasks t =
     with_columns [(''due_date'', ''dueDate''), (''order_index'', ''orderIndex'')] (t\<lparr>user_id := Some uid\<rparr>)"
| "upsert_row uid Appointments a =
     with_columns [(''reminder_time_in_minutes'', ''reminderTimeInMinutes'')] (a\<lparr>user_id := Some uid\<rparr>)"
| "upsert_row uid AccountingEntries e =
     with_columns [(''client_name'', ''clientName'')]
       (e\<lparr>user_id := Some uid, client_id := clientId e, case_id := caseId e\<rparr>)"
| "upsert_row uid SiteFinances sf = sf"

text \<open>The orphan filters. The sets of valid parent ids are taken from the tables of the
  write set \<open>data\<close> itself.\<close>

definition not_orphan :: "flat_data \<Rightarrow> table \<Rightarrow> item \<Rightarrow> bool" where
  "not_orphan data t x =
     (case t of
        Cases \<Rightarrow> client_id x \<in> set (map item_id (data Clients))
      | Stages \<Rightarrow> case_id x \<in> set (map item_id (data Cases))
      | Sessions \<Rightarrow> stage_id x \<in> set (map item_id (data Stages))
      | Invoices \<Rightarrow> clientId x \<in> set (map item_id (data Clients))
      | InvoiceItems \<Rightarrow> invoice_id x \<in> set (map item_id (data Invoices))
      | CaseDocuments \<Rightarrow> caseId x \<in> set (map item_id (data Cases))
      | _ \<Rightarrow> True)"

definition upsert_batch :: "flat_data \<Rightarrow> string \<Rightarrow> table \<Rightarrow> item list" where
  "upsert_batch data uid t = map (upsert_row uid t) (filter (not_orphan data t) (data t))"

definition upsertOrder :: "table list" where
  "upsertOrder = [Profiles, Assistants, Clients, Cases, Stages, Sessions, Invoices,
     InvoiceItems, CaseDocuments, AdminTasks, Appointments, AccountingEntries, SiteFinances]"

definition upsert_options :: "table \<Rightarrow> string option" where
  "upsert_options t = (if t = Assistants then Some ''user_id,name'' else None)"

text \<open>\<open>upsertTable\<close> for each table in turn; an empty batch issues no call and gives
  \<open>[]\<close>; the first error is thrown.\<close>

fun upsert_loop ::
  "env \<Rightarrow> (table \<Rightarrow> item list) \<Rightarrow> table list \<Rightarrow> remote_op list \<Rightarrow> flat_data
    \<Rightarrow> remote_op list \<times> (sync_error + flat_data)" where
  "upsert_loop e batches [] tr results = (tr, Inr results)"
| "upsert_loop e batches (t # ts) tr results =
     (let records = batches t in
      if records = [] then upsert_loop e batches ts tr (results(t := []))
      else (case upsert_rows e t records of
              Inl m \<Rightarrow> (tr @ [Upsert t records (upsert_options t)],
                        Inl (plain_error (name_of_table t @ '' upsert error: '' @ m)))
            | Inr resData \<Rightarrow>
                upsert_loop e batches ts (tr @ [Upsert t records (upsert_options t)])
                  (results(t := resData))))"

definition upsertDataToSupabase ::
  "env \<Rightarrow> flat_data \<Rightarrow> string \<Rightarrow> remote_op list \<times> (sync_error + flat_data)" where
  "upsertDataToSupabase e data uid =
     (if \<not> client e then ([], Inl (plain_error ''Supabase client not available.''))
      else upsert_loop e (upsert_batch data uid) upsertOrder [] (\<lambda>t. []))"

section \<open>Sync orchestrator: \<open>manualSync\<close>\<close>

datatype sync_status = Loading | Syncing | Synced | Error | Unconfigured | Uninitialized

text \<open>
  The second argument of \<open>setStatus\<close>. The fixed texts of the source are Arabic string
  literals; each is a constructor here, named after what it says. \<open>Text\<close> is a string
  made at run time.
\<close>

datatype message =
  Text string
  | MsgLoginRequired       \<comment> \<open>one must sign in to synchronise\<close>
  | MsgOfflineRequired     \<comment> \<open>one must be online to synchronise\<close>
  | MsgCheckingCloud       \<comment> \<open>checking the state of the cloud\<close>
  | MsgNotInitialised      \<comment> \<open>the database is not initialised\<close>
  | MsgConnectionFailed string   \<comment> \<open>connection failed, followed by the probe's message\<close>
  | MsgFetching            \<comment> \<open>fetching data and changes\<close>
  | MsgSendingDeletions    \<comment> \<open>sending the deletions\<close>
  | MsgSendingUpserts      \<comment> \<open>sending the new modifications\<close>
  | MsgSyncFailed          \<comment> \<open>synchronisation failed\<close>
  | MsgServerUnreachable   \<comment> \<open>could not reach the server\<close>

text \<open>The text of a message is not empty: the literals are not, and \<open>Text s\<close> is \<open>s\<close>.\<close>

definition message_nonempty :: "message \<Rightarrow> bool" where
  "message_nonempty m = (case m of Text s \<Rightarrow> s \<noteq> [] | _ \<Rightarrow> True)"

text \<open>\<open>String.prototype.includes\<close>\<close>

fun str_includes :: "string \<Rightarrow> string \<Rightarrow> bool" where
  "str_includes [] sub = (sub = [])"
| "str_includes (c # cs) sub = (take (length sub) (c # cs) = sub \<or> str_includes cs sub)"

text \<open>The \<open>catch\<close> of \<open>manualSync\<close>:
  \<open>msg = err.message || <sync failed>\<close>, replaced by the server text when it
  includes \<open>failed to fetch\<close>.\<close>

definition catch_message :: "sync_error \<Rightarrow> message" where
  "catch_message err =
     (if err_message err = [] then MsgSyncFailed
      else if str_includes (err_message err) ''failed to fetch'' then MsgServerUnreachable
      else Text (err_message err))"

record sync_props =
  user :: "string option"          \<comment> \<open>the id of \<open>user\<close>, \<open>None\<close> when there is no user\<close>
  localData :: app_data
  deletedIds :: deleted_ids
  isOnline :: bool
  isAuthLoading :: bool
  syncStatus :: sync_status

text \<open>
  What a run does to its caller: the calls of \<open>onSyncStatusChange\<close> in order, the
  remote calls in order, and the arguments of \<open>onDataSynced\<close> and \<open>onDeletionsSynced\<close>
  when they are called.
\<close>

record outcome =
  events :: "(sync_status \<times> message option) list"
  ops :: "remote_op list"
  dataSynced :: "app_data option"
  deletionsSynced :: "deleted_ids option"

text \<open>\<open>getInitialDeletedIds()\<close> is not part of the sources at hand; it is taken to give
  the empty list for every property.\<close>

definition getInitialDeletedIds :: deleted_ids where
  "getInitialDeletedIds = (\<lambda>k. [])"

definition id_only :: "string \<Rightarrow> item" where
  "id_only i = empty_item\<lparr>item_id := Some i\<rparr>"

definition name_only :: "string \<Rightarrow> item" where
  "name_only n = empty_item\<lparr>item_name := Some n\<rparr>"

primrec flatDeletes :: "deleted_ids \<Rightarrow> flat_data" where
  "flatDeletes d Clients = map id_only (d D_clients)"
| "flatDeletes d Cases = map id_only (d D_cases)"
| "flatDeletes d Stages = map id_only (d D_stages)"
| "flatDeletes d Sessions = map id_only (d D_sessions)"
| "flatDeletes d AdminTasks = map id_only (d D_adminTasks)"
| "flatDeletes d Appointments = map id_only (d D_appointments)"
| "flatDeletes d AccountingEntries = map id_only (d D_accountingEntries)"
| "flatDeletes d Assistants = map name_only (d D_assistants)"
| "flatDeletes d Invoices = map id_only (d D_invoices)"
| "flatDeletes d InvoiceItems = map id_only (d D_invoiceItems)"
| "flatDeletes d CaseDocuments = map id_only (d D_documents)"
| "flatDeletes d SiteFinances = map id_only (d D_siteFinances)"
| "flatDeletes d Profiles = []"

definition tables :: "table list" where
  "tables = [Clients, Cases, Stages, Sessions, AdminTasks, Appointments, AccountingEntries,
     Assistants, Invoices, InvoiceItems, CaseDocuments, Profiles, SiteFinances]"

text \<open>\<open>item.id ?? item.name\<close>, the key of \<open>upsertedMap\<close>.\<close>

definition pk_opt :: "item \<Rightarrow> string option" where
  "pk_opt x = (case item_id x of Some i \<Rightarrow> Some i | None \<Rightarrow> item_name x)"

definition upsertedMap :: "flat_data \<Rightarrow> (string option \<rightharpoonup> item)" where
  "upsertedMap upsertedFlatData =
     foldl (\<lambda>m x. m(pk_opt x \<mapsto> x)) Map.empty (concat (map upsertedFlatData tables))"

text \<open>\<open>merged.map(item => upsertedMap.get(item.id ?? item.name) || item)\<close>\<close>

definition refresh_merged :: "flat_data \<Rightarrow> flat_data \<Rightarrow> flat_data" where
  "refresh_merged upsertedFlatData mergedFlatData t =
     map (\<lambda>x. case upsertedMap upsertedFlatData (pk_opt x) of Some u \<Rightarrow> u | None \<Rightarrow> x)
       (mergedFlatData t)"

text \<open>The local tables and the deleted keys of a full sync, and its merge.\<close>

definition sync_merge :: "app_data \<Rightarrow> deleted_ids \<Rightarrow> flat_data \<Rightarrow> sync_deletion list \<Rightarrow> table \<Rightarrow> merge_result" where
  "sync_merge data ids remoteFlatData remoteDeletions =
     merge_tables (applyDeletionsToLocal (flattenData data) remoteDeletions) remoteFlatData
       (deletedKeys remoteDeletions ids)"

text \<open>The removal of the queued blobs: \<open>successfulDeletions\<close> after it, and the call.\<close>

definition remove_queued_blobs :: "env \<Rightarrow> deleted_ids \<Rightarrow> (sync_error + deleted_ids) \<times> remote_op list" where
  "remove_queued_blobs e ids =
     (if ids D_documentPaths \<noteq> [] \<and> client e then
        (case storage_remove e (ids D_documentPaths) of
           RemoveOk \<Rightarrow> (Inr (getInitialDeletedIds(D_documentPaths := ids D_documentPaths)),
                        [StorageRemove (ids D_documentPaths)])
         | RemoveError code \<Rightarrow> (Inr getInitialDeletedIds, [StorageRemove (ids D_documentPaths)])
         | RemoveThrows msg \<Rightarrow> (Inl (plain_error msg), [StorageRemove (ids D_documentPaths)]))
      else (Inr getInitialDeletedIds, []))"

text \<open>The body of the \<open>try\<close> block after the fetch. It gives the status calls and remote
  calls it made and either the thrown error or the arguments of the two callbacks.\<close>

definition sync_push ::
  "env \<Rightarrow> sync_props \<Rightarrow> string \<Rightarrow> flat_data \<Rightarrow> sync_deletion list
    \<Rightarrow> (sync_status \<times> message option) list \<times> remote_op list \<times> (sync_error + app_data \<times> deleted_ids)" where
  "sync_push e p uid remoteFlatData remoteDeletions =
     (let m = sync_merge (localData p) (deletedIds p) remoteFlatData remoteDeletions;
          mergedFlatData = (\<lambda>t. merged (m t));
          flatUpserts = (\<lambda>t. toUpsert (m t));
          (blobs, tr0) = remove_queued_blobs e (deletedIds p)
      in case blobs of
           Inl err \<Rightarrow> ([], tr0, Inl err)
         | Inr successful0 \<Rightarrow>
            (let deleting = list_ex (\<lambda>t. flatDeletes (deletedIds p) t \<noteq> []) tables;
                 ev1 = (if deleting then [(Syncing, Some MsgSendingDeletions)] else []);
                 (tr1, deleted) = (if deleting
                      then deleteDataFromSupabase e (flatDeletes (deletedIds p)) uid
                      else ([], Inr ()))
             in case deleted of
                  Inl err \<Rightarrow> (ev1, tr0 @ tr1, Inl err)
                | Inr u \<Rightarrow>
                   (let successfulDeletions = (if deleting then deletedIds p else successful0);
                        ev2 = ev1 @ [(Syncing, Some MsgSendingUpserts)];
                        (tr2, upserted) = upsertDataToSupabase e flatUpserts uid
                    in case upserted of
                         Inl err \<Rightarrow> (ev2, tr0 @ tr1 @ tr2, Inl err)
                       | Inr upsertedFlatData \<Rightarrow>
                           (ev2, tr0 @ tr1 @ tr2,
                            Inr (constructData (refresh_merged upsertedFlatData mergedFlatData),
                                 successfulDeletions)))))"

definition sync_try ::
  "env \<Rightarrow> sync_props \<Rightarrow> string
    \<Rightarrow> (sync_status \<times> message option) list \<times> remote_op list \<times> (sync_error + app_data \<times> deleted_ids)" where
  "sync_try e p uid =
     (case fetchDataFromSupabase e of
        Inl err \<Rightarrow> ([(Syncing, Some MsgFetching)], [], Inl err)
      | Inr remoteFlatData \<Rightarrow>
          (let (ev, tr, res) = sync_push e p uid remoteFlatData (fetchDeletionsFromSupabase e)
           in ((Syncing, Some MsgFetching) # ev, tr, res)))"

definition manualSync :: "env \<Rightarrow> sync_props \<Rightarrow> outcome" where
  "manualSync e p =
     (if syncStatus p = Syncing \<or> isAuthLoading p
      then \<lparr> events = [], ops = [], dataSynced = None, deletionsSynced = None \<rparr>
      else case (isOnline p, user p) of
        (False, u) \<Rightarrow> \<lparr> events = [(Error, Some MsgOfflineRequired)], ops = [],
                        dataSynced = None, deletionsSynced = None \<rparr>
      | (True, None) \<Rightarrow> \<lparr> events = [(Error, Some MsgLoginRequired)], ops = [],
                        dataSynced = None, deletionsSynced = None \<rparr>
      | (True, Some uid) \<Rightarrow>
         (case schema e of
            SchemaUnconfigured \<Rightarrow>
              \<lparr> events = [(Syncing, Some MsgCheckingCloud), (Unconfigured, None)], ops = [],
                dataSynced = None, deletionsSynced = None \<rparr>
          | SchemaUninitialized \<Rightarrow>
              \<lparr> events = [(Syncing, Some MsgCheckingCloud), (Uninitialized, Some MsgNotInitialised)],
                ops = [], dataSynced = None, deletionsSynced = None \<rparr>
          | SchemaUnknown msg \<Rightarrow>
              \<lparr> events = [(Syncing, Some MsgCheckingCloud), (Error, Some (MsgConnectionFailed msg))],
                ops = [], dataSynced = None, deletionsSynced = None \<rparr>
          | SchemaOk \<Rightarrow>
             (let (ev, tr, res) = sync_try e p uid
              in case res of
                   Inl err \<Rightarrow>
                     \<lparr> events = (Syncing, Some MsgCheckingCloud) # ev @ [(Error, Some (catch_message err))],
                       ops = tr, dataSynced = None, deletionsSynced = None \<rparr>
                 | Inr (mergedData, successfulDeletions) \<Rightarrow>
                     \<lparr> events = (Syncing, Some MsgCheckingCloud) # ev @ [(Synced, None)],
                       ops = tr, dataSynced = Some mergedData,
                       deletionsSynced = Some successfulDeletions \<rparr>)))"

text \<open>
  The caller's \<open>onDeletionsSynced\<close>: every pending id that was synced is taken off its
  list. The pending lists after a run are those the callback leaves, or the old ones when
  the callback was not called.
\<close>

definition onDeletionsSynced :: "deleted_ids \<Rightarrow> deleted_ids \<Rightarrow> deleted_ids" where
  "onDeletionsSynced prev syncedDeletions = (\<lambda>k. filter (\<lambda>i. i \<notin> set (syncedDeletions k)) (prev k))"

definition pending_after :: "deleted_ids \<Rightarrow> outcome \<Rightarrow> deleted_ids" where
  "pending_after prev out =
     (case deletionsSynced out of None \<Rightarrow> prev | Some s \<Rightarrow> onDeletionsSynced prev s)"

section \<open>Attachment lifecycle: the retention sweep \<open>cleanupCloudStorage\<close>\<close>

datatype local_state =
  PendingUpload | PendingDownload | Downloading | DocSynced | Archived | DocError | Expired

record case_document =
  doc_id :: string
  doc_caseId :: string
  doc_userId :: string
  doc_name :: string
  doc_type :: string
  doc_size :: nat
  addedAt :: int
  storagePath :: string
  localState :: local_state
  doc_updated_at :: int

text \<open>
  What the sweep reads and writes: the object store \<open>caseDocumentMetadata\<close>, the React
  state \<open>documents\<close>, and the removals it asks of the remote storage.
\<close>

record doc_state =
  metadata :: "(string \<times> case_document) list"
  documents_state :: "case_document list"
  removals :: "string list list"

definition ONE_DAY :: int where
  "ONE_DAY = 24 * 60 * 60 * 1000"

definition is_expired_doc :: "int \<Rightarrow> case_document \<Rightarrow> bool" where
  "is_expired_doc now doc =
     (let isOld = (now - addedAt doc > ONE_DAY) in isOld \<and> localState doc = DocSynced)"

text \<open>
  \<open>db.put(store, value, key?)\<close> on an object store of this database. \<open>getDb\<close> creates
  every store with \<open>db.createObjectStore(name)\<close>, with neither a key path nor a key
  generator, so a put needs its key: without one it raises \<open>DataError\<close>, here \<open>None\<close>.
\<close>

definition db_put :: "(string \<times> 'v) list \<Rightarrow> 'v \<Rightarrow> string option \<Rightarrow> (string \<times> 'v) list option" where
  "db_put store v key = (case key of None \<Rightarrow> None | Some k \<Rightarrow> Some (AList.update k v store))"

text \<open>The body of \<open>if (!error || statusCode === '404')\<close>: the put, which is called with no
  key, and after it \<open>setDocuments\<close>. \<open>None\<close> when the put throws.\<close>

definition archive_doc :: "case_document \<Rightarrow> doc_state \<Rightarrow> doc_state option" where
  "archive_doc doc st =
     (let updatedDoc = doc\<lparr>localState := Archived\<rparr>
      in case db_put (metadata st) updatedDoc None of
           None \<Rightarrow> None
         | Some m \<Rightarrow>
             Some (st\<lparr> metadata := m,
                        documents_state := map (\<lambda>d. if doc_id d = doc_id doc then updatedDoc else d)
                                             (documents_state st) \<rparr>))"

text \<open>The loop over \<open>expiredDocs\<close>. Whatever is thrown inside it, by the removal or by
  the put, ends the loop in the \<open>catch\<close> of \<open>cleanupCloudStorage\<close>.\<close>

fun sweep_loop :: "(string list \<Rightarrow> remove_result) \<Rightarrow> case_document list \<Rightarrow> doc_state \<Rightarrow> doc_state" where
  "sweep_loop rm [] st = st"
| "sweep_loop rm (doc # docs) st =
     (let st1 = st\<lparr>removals := removals st @ [[storagePath doc]]\<rparr> in
      case rm [storagePath doc] of
        RemoveThrows msg \<Rightarrow> st1
      | RemoveOk \<Rightarrow>
          (case archive_doc doc st1 of None \<Rightarrow> st1 | Some st2 \<Rightarrow> sweep_loop rm docs st2)
      | RemoveError code \<Rightarrow>
          (if code = Some ''404''
           then (case archive_doc doc st1 of None \<Rightarrow> st1 | Some st2 \<Rightarrow> sweep_loop rm docs st2)
           else sweep_loop rm docs st1))"

definition cleanupCloudStorage :: "env \<Rightarrow> bool \<Rightarrow> int \<Rightarrow> doc_state \<Rightarrow> doc_state" where
  "cleanupCloudStorage e online now st =
     (if \<not> online \<or> \<not> client e then st
      else let allDocs = map snd (metadata st);
               expiredDocs = filter (is_expired_doc now) allDocs
           in sweep_loop (storage_remove e) expiredDocs st)"

section \<open>Predicates of the statements\<close>

text \<open>An association list is keyed when its keys are distinct and every entry sits
  under the primary key of its value: the shape of \<open>finalMap\<close> throughout a merge.\<close>

definition keyed :: "(string \<times> item) list \<Rightarrow> bool" where
  "keyed fm \<longleftrightarrow> distinct (map fst fm) \<and> (\<forall>(k, v) \<in> set fm. getPk v = k)"

text \<open>No key of the accumulator of a merge is a deleted key.\<close>

definition clean :: "string set \<Rightarrow> string \<Rightarrow> merge_acc \<Rightarrow> bool" where
  "clean D t acc \<longleftrightarrow>
     (\<forall>(k, v) \<in> set (fst acc). table_key t k \<notin> D) \<and> (\<forall>x \<in> set (snd acc). table_key t (getPk x) \<notin> D)"

text \<open>
  A well-formed tree: the ids of the clients, of all cases, of all stages and of the
  invoices are distinct; every nested record carries the id of its parent as its foreign
  key; the assistant names are distinct and not empty.
\<close>

definition all_cases :: "app_data \<Rightarrow> case_rec list" where
  "all_cases d = concat (map cases (clients d))"

definition all_stages :: "app_data \<Rightarrow> stage list" where
  "all_stages d = concat (map stages (all_cases d))"

definition wf_tree :: "app_data \<Rightarrow> bool" where
  "wf_tree d \<longleftrightarrow>
     distinct (map item_id (clients d)) \<and> distinct (map item_id (all_cases d))
     \<and> distinct (map item_id (all_stages d)) \<and> distinct (map item_id (invoices d))
     \<and> (\<forall>c \<in> set (clients d). \<forall>cs \<in> set (cases c). client_id cs = item_id c)
     \<and> (\<forall>cs \<in> set (all_cases d). \<forall>st \<in> set (stages cs). case_id st = item_id cs)
     \<and> (\<forall>st \<in> set (all_stages d). \<forall>s \<in> set (sessions st). stage_id s = item_id st)
     \<and> (\<forall>inv \<in> set (invoices d). \<forall>it \<in> set (items inv). invoice_id it = item_id inv)
     \<and> distinct (assistants d) \<and> [] \<notin> set (assistants d)"

section \<open>Concrete inputs\<close>

text \<open>A row with an id and a timestamp, and nothing else.\<close>

definition row_at :: "string \<Rightarrow> int \<Rightarrow> item" where
  "row_at i ms = empty_item\<lparr>item_id := Some i, updated_at := Some ms\<rparr>"

definition no_rows :: flat_data where
  "no_rows = (\<lambda>t. [])"

definition no_data :: app_data where
  "no_data = \<lparr> clients = [], adminTasks = [], appointments = [], accountingEntries = [],
     invoices = [], assistants = [], documents = [], profiles = [], siteFinances = [] \<rparr>"

text \<open>
  The scenario of the specification: locally client \<open>1\<close>, updated at 10:00, with the
  cases \<open>10\<close> and \<open>11\<close>, both unchanged since 09:00; remotely client \<open>1\<close> as of 09:00
  and a tombstone of 09:30 for case \<open>11\<close>. Times are milliseconds of one day.
\<close>

definition scenario_local :: app_data where
  "scenario_local = no_data\<lparr> clients :=
     [item.extend (row_at ''1'' 36000000) (client.fields
        [item.extend ((row_at ''10'' 32400000)\<lparr>client_id := Some ''1''\<rparr>) (case_rec.fields []),
         item.extend ((row_at ''11'' 32400000)\<lparr>client_id := Some ''1''\<rparr>) (case_rec.fields [])])] \<rparr>"

definition scenario_remote :: flat_data where
  "scenario_remote = no_rows(Clients := [row_at ''1'' 32400000])"

definition scenario_deletions :: "sync_deletion list" where
  "scenario_deletions = [\<lparr> table_name = ''cases'', record_id = ''11'', deleted_at = Some 34200000 \<rparr>]"

text \<open>
  A record edited after its remote deletion: client \<open>c1\<close>, edited locally at 10000 ms,
  and a tombstone for it of 0 ms; the remote table no longer has it.
\<close>

definition edited_local :: app_data where
  "edited_local = no_data\<lparr> clients := [item.extend (row_at ''c1'' 10000) (client.fields [])] \<rparr>"

definition edited_deletions :: "sync_deletion list" where
  "edited_deletions = [\<lparr> table_name = ''clients'', record_id = ''c1'', deleted_at = Some 0 \<rparr>]"

text \<open>A tree with every kind of nesting, each child carrying the id of its parent.\<close>

definition nested_example :: app_data where
  "nested_example = no_data\<lparr>
     clients :=
       [item.extend (row_at ''1'' 100) (client.fields
          [item.extend ((row_at ''10'' 100)\<lparr>client_id := Some ''1''\<rparr>) (case_rec.fields
             [item.extend ((row_at ''s1'' 100)\<lparr>case_id := Some ''10''\<rparr>) (stage.fields
                [(row_at ''x1'' 100)\<lparr>stage_id := Some ''s1''\<rparr>,
                 (row_at ''x2'' 100)\<lparr>stage_id := Some ''s1''\<rparr>])]),
           item.extend ((row_at ''11'' 100)\<lparr>client_id := Some ''1''\<rparr>) (case_rec.fields [])]),
        item.extend (row_at ''2'' 100) (client.fields [])],
     invoices :=
       [item.extend (row_at ''i1'' 100) (invoice.fields [(row_at ''it1'' 100)\<lparr>invoice_id := Some ''i1''\<rparr>])],
     assistants := [''a'', ''b''] \<rparr>"

text \<open>A remote store whose every call succeeds: it has no rows and no tombstones, and an
  upsert returns the rows it was given.\<close>

definition quiet_env :: env where
  "quiet_env = \<lparr> client = True, schema = SchemaOk, select_rows = (\<lambda>t. Inr []),
     select_deletions = Inr [], delete_rows = (\<lambda>t. None), upsert_rows = (\<lambda>t rows. Inr rows),
     storage_remove = (\<lambda>paths. RemoveOk) \<rparr>"

text \<open>A write set with client \<open>c\<close>, its case \<open>k1\<close>, and case \<open>k2\<close> of a client \<open>zz\<close>
  that is not in the write set.\<close>

definition orphan_writes :: flat_data where
  "orphan_writes = no_rows(Clients := [row_at ''c'' 0],
     Cases := [(row_at ''k1'' 0)\<lparr>client_id := Some ''c''\<rparr>, (row_at ''k2'' 0)\<lparr>client_id := Some ''zz''\<rparr>])"

text \<open>Pending deletions in three tables, listed parents first.\<close>

definition three_deletes :: flat_data where
  "three_deletes = no_rows(Clients := [row_at ''c'' 0], Sessions := [row_at ''s'' 0],
     CaseDocuments := [row_at ''d'' 0])"

text \<open>A remote store like \<open>quiet_env\<close> whose delete on \<open>sessions\<close> fails, and a caller
  with one pending document deletion and one pending session deletion.\<close>

definition failing_env :: env where
  "failing_env = quiet_env\<lparr> delete_rows := (\<lambda>t. if t = Sessions then Some ''boom'' else None) \<rparr>"

definition pending_ids :: deleted_ids where
  "pending_ids = getInitialDeletedIds(D_documents := [''d1''], D_sessions := [''s1''])"

definition pending_props :: sync_props where
  "pending_props = \<lparr> user = Some ''u'', localData = no_data, deletedIds = pending_ids,
     isOnline = True, isAuthLoading = False, syncStatus = Synced \<rparr>"

text \<open>A remote store that cannot be reached: every select fails as a browser's
  \<open>fetch\<close> does.\<close>

definition unreachable_env :: env where
  "unreachable_env = quiet_env\<lparr> select_rows := (\<lambda>t. Inl ''TypeError: failed to fetch'') \<rparr>"

text \<open>A document added at time 0 and synced, alone in the metadata store and in the
  React state.\<close>

definition old_doc :: case_document where
  "old_doc = \<lparr> doc_id = ''d1'', doc_caseId = ''k1'', doc_userId = ''u'', doc_name = ''scan.pdf'',
     doc_type = ''application/pdf'', doc_size = 10, addedAt = 0, storagePath = ''u/k1/d1'',
     localState = DocSynced, doc_updated_at = 0 \<rparr>"

definition old_store :: doc_state where
  "old_store = \<lparr> metadata = [(''d1'', old_doc)], documents_state = [old_doc], removals = [] \<rparr>"

text \<open>A write set in which case \<open>k2\<close> is an orphan (its client \<open>zz\<close> is not there) and
  stage \<open>s2\<close> belongs to \<open>k2\<close>.\<close>

definition dropped_parent_writes :: flat_data where
  "dropped_parent_writes = no_rows(Clients := [row_at ''c'' 0],
     Cases := [(row_at ''k2'' 0)\<lparr>client_id := Some ''zz''\<rparr>],
     Stages := [(row_at ''s2'' 0)\<lparr>case_id := Some ''k2''\<rparr>])"

section \<open>The merge keeps its map keyed and free of deleted keys\<close>

lemma set_update_subset: "set (AList.update k v al) \<subseteq> insert (k, v) (set al)"
  by (induction al) auto

lemma keyed_update: "keyed fm \<Longrightarrow> getPk v = k \<Longrightarrow> keyed (AList.update k v fm)"
  unfolding keyed_def using set_update_subset[of k v fm]
  by (auto simp: distinct_update)

lemma find_getPk: "find (\<lambda>r. getPk r = k) remote = Some r \<Longrightarrow> getPk r = k"
  by (auto simp: find_Some_iff)

lemma keyed_local_step:
  assumes "keyed (fst acc)"
  shows "keyed (fst (merge_local_step remote D t acc l))"
proof -
  have 1: "keyed (AList.update (getPk l) l (fst acc))"
    by (rule keyed_update[OF assms]) simp
  have 2: "keyed (AList.update (getPk l) r (fst acc))"
    if "find (\<lambda>r. getPk r = getPk l) remote = Some r" for r
    by (rule keyed_update[OF assms]) (rule find_getPk[OF that])
  from assms 1 2 show ?thesis
    by (simp add: merge_local_step_def Let_def split: option.splits)
qed

lemma keyed_remote_step: "keyed fm \<Longrightarrow> keyed (merge_remote_step D t fm r)"
  by (auto simp: merge_remote_step_def Let_def keyed_update)

lemma keyed_foldl_local: "keyed (fst acc) \<Longrightarrow> keyed (fst (foldl (merge_local_step remote D t) acc ls))"
  by (induction ls arbitrary: acc) (auto simp: keyed_local_step)

lemma keyed_foldl_remote: "keyed fm \<Longrightarrow> keyed (foldl (merge_remote_step D t) fm rs)"
  by (induction rs arbitrary: fm) (auto simp: keyed_remote_step)

lemma keyed_filter:
  "keyed fm \<Longrightarrow> filter (\<lambda>x. getPk x = k) (map snd fm) = (case map_of fm k of Some v \<Rightarrow> [v] | None \<Rightarrow> [])"
proof (induction fm)
  case Nil
  then show ?case by simp
next
  case (Cons p fm)
  obtain k' v' where p: "p = (k', v')" by (cases p)
  from Cons.prems have kd: "keyed fm" and pk: "getPk v' = k'" and nin: "k' \<notin> fst ` set fm"
    and all: "\<forall>(a, b) \<in> set fm. getPk b = a"
    by (auto simp: keyed_def p)
  show ?case
  proof (cases "k' = k")
    case True
    with nin have "map_of fm k = None" by (simp add: map_of_eq_None_iff)
    with Cons.IH[OF kd] True pk p show ?thesis by (simp split: option.splits)
  next
    case False
    with Cons.IH[OF kd] pk p show ?thesis by simp
  qed
qed

lemma clean_update:
  assumes "clean D t (fm, up)" and "table_key t k \<notin> D"
  shows "clean D t (AList.update k v fm, up)"
proof -
  have "\<And>a b. (a, b) \<in> set (AList.update k v fm) \<Longrightarrow> table_key t a \<notin> D"
  proof -
    fix a b assume "(a, b) \<in> set (AList.update k v fm)"
    with set_update_subset[of k v fm] have "(a, b) = (k, v) \<or> (a, b) \<in> set fm" by blast
    with assms show "table_key t a \<notin> D" by (auto simp: clean_def)
  qed
  with assms(1) show ?thesis by (auto simp: clean_def)
qed

lemma clean_push:
  "clean D t (fm, up) \<Longrightarrow> table_key t (getPk x) \<notin> D \<Longrightarrow> clean D t (fm, up @ [x])"
  by (auto simp: clean_def)

lemma clean_local_step:
  assumes "clean D t acc"
  shows "clean D t (merge_local_step remote D t acc l)"
proof -
  obtain fm up where acc: "acc = (fm, up)" by (cases acc)
  show ?thesis
  proof (cases "getPk l = [] \<or> table_key t (getPk l) \<in> D")
    case True
    with assms show ?thesis by (auto simp: merge_local_step_def Let_def)
  next
    case False
    then have nd: "table_key t (getPk l) \<notin> D" by simp
    from assms acc have c: "clean D t (fm, up)" by simp
    have 1: "clean D t (AList.update (getPk l) v fm, up)" for v
      by (rule clean_update[OF c nd])
    have 2: "clean D t (AList.update (getPk l) v fm, up @ [l])" for v
      by (rule clean_push[OF 1 nd])
    from False 1 2 show ?thesis
      by (simp add: merge_local_step_def Let_def acc split: option.splits)
  qed
qed

lemma clean_foldl_local: "clean D t acc \<Longrightarrow> clean D t (foldl (merge_local_step remote D t) acc ls)"
  by (induction ls arbitrary: acc) (auto simp: clean_local_step)

lemma clean_remote_step: "clean D t (fm, up) \<Longrightarrow> clean D t (merge_remote_step D t fm r, up)"
  by (simp add: merge_remote_step_def Let_def clean_update)

lemma clean_foldl_remote: "clean D t (fm, up) \<Longrightarrow> clean D t (foldl (merge_remote_step D t) fm rs, up)"
  by (induction rs arbitrary: fm) (auto simp: clean_remote_step)

lemma mergeItems_clean:
  "clean D t (foldl (merge_remote_step D t) (fst (foldl (merge_local_step remote D t) ([], []) local)) remote,
     snd (foldl (merge_local_step remote D t) ([], []) local))"
proof -
  have "clean D t ([], [])" by (simp add: clean_def)
  then have "clean D t (foldl (merge_local_step remote D t) ([], []) local)" by (rule clean_foldl_local)
  then show ?thesis using clean_foldl_remote[of D t "fst (foldl (merge_local_step remote D t) ([], []) local)" "snd (foldl (merge_local_step remote D t) ([], []) local)" remote] by simp
qed

lemma keyed_merged: "keyed (foldl (merge_remote_step D t) (fst (foldl (merge_local_step remote D t) ([], []) local)) remote)"
  by (rule keyed_foldl_remote, rule keyed_foldl_local) (simp add: keyed_def)

lemma merge_result_clean:
  assumes "table_key tableName k \<in> deletedSet"
  shows "k \<notin> getPk ` set (merged (mergeItems local remote deletedSet tableName))
       \<and> k \<notin> getPk ` set (toUpsert (mergeItems local remote deletedSet tableName))"
proof -
  let ?acc = "foldl (merge_local_step remote deletedSet tableName) ([], []) local"
  let ?fm = "foldl (merge_remote_step deletedSet tableName) (fst ?acc) remote"
  have c: "clean deletedSet tableName (?fm, snd ?acc)" by (rule mergeItems_clean)
  have kd: "keyed ?fm" by (rule keyed_merged)
  have "k \<notin> getPk ` set (map snd ?fm)"
  proof
    assume "k \<in> getPk ` set (map snd ?fm)"
    then obtain a v where av: "(a, v) \<in> set ?fm" and "getPk v = k" by auto
    with kd have "a = k" by (auto simp: keyed_def)
    with av c assms show False by (auto simp: clean_def)
  qed
  moreover have "k \<notin> getPk ` set (snd ?acc)"
    using c assms by (auto simp: clean_def)
  ultimately show ?thesis by (simp add: mergeItems_def Let_def)
qed

text \<open>
  Claim C4. For every key in the set of deleted keys that is passed to the merge of a
  table, no record with that key is in \<open>merged\<close> or in \<open>toUpsert\<close>, whatever the
  timestamps are: a local record with a deleted key is skipped and a remote record with
  a deleted key is not added.
\<close>

theorem mergeItems_excludes_deleted:
  assumes "table_key tableName k \<in> deletedSet"
  shows "k \<notin> getPk ` set (merged (mergeItems local remote deletedSet tableName))
       \<and> k \<notin> getPk ` set (toUpsert (mergeItems local remote deletedSet tableName))"
  using assms by (rule merge_result_clean)

theorem mergeItems_excludes_deleted_witness:
  "table_key ''clients'' ''b'' \<in> {''clients:b''}
   \<and> ''b'' \<notin> getPk ` set (merged (mergeItems
          [empty_item\<lparr>item_id := Some ''b'', updated_at := Some 9000000\<rparr>]
          [empty_item\<lparr>item_id := Some ''b'', updated_at := Some 0\<rparr>] {''clients:b''} ''clients''))
   \<and> ''b'' \<notin> getPk ` set (toUpsert (mergeItems
          [empty_item\<lparr>item_id := Some ''b'', updated_at := Some 9000000\<rparr>]
          [empty_item\<lparr>item_id := Some ''b'', updated_at := Some 0\<rparr>] {''clients:b''} ''clients''))"
  using mergeItems_excludes_deleted[of "''clients''" "''b''" "{''clients:b''}"
      "[empty_item\<lparr>item_id := Some ''b'', updated_at := Some 9000000\<rparr>]"
      "[empty_item\<lparr>item_id := Some ''b'', updated_at := Some 0\<rparr>]"]
  by (simp add: table_key_def)

section \<open>Conflict resolution of the merge\<close>

lemma local_step_other_key:
  assumes "getPk l \<noteq> k"
  shows "map_of (fst (merge_local_step remote D t acc l)) k = map_of (fst acc) k"
    and "filter (\<lambda>x. getPk x = k) (snd (merge_local_step remote D t acc l)) = filter (\<lambda>x. getPk x = k) (snd acc)"
  using assms
  by (simp_all add: merge_local_step_def Let_def update_conv' split: option.splits)

lemma foldl_local_other_keys:
  assumes "\<forall>x \<in> set ls. getPk x \<noteq> k"
  shows "map_of (fst (foldl (merge_local_step remote D t) acc ls)) k = map_of (fst acc) k
       \<and> filter (\<lambda>x. getPk x = k) (snd (foldl (merge_local_step remote D t) acc ls)) = filter (\<lambda>x. getPk x = k) (snd acc)"
  using assms
proof (induction ls arbitrary: acc)
  case Nil
  then show ?case by simp
next
  case (Cons a ls)
  then have a: "getPk a \<noteq> k" and rest: "\<forall>x \<in> set ls. getPk x \<noteq> k" by simp_all
  show ?case
    using Cons.IH[OF rest, of "merge_local_step remote D t acc a"] local_step_other_key[OF a, of remote D t acc]
    by simp
qed

lemma local_step_hit:
  assumes "getPk l \<noteq> []" and "table_key t (getPk l) \<notin> D"
    and "find (\<lambda>r. getPk r = getPk l) remote = Some r"
  shows "map_of (fst (merge_local_step remote D t acc l)) (getPk l)
          = Some (if time_of (updated_at l) > time_of (updated_at r) + 1000 then l else r)"
    and "filter (\<lambda>x. getPk x = getPk l) (snd (merge_local_step remote D t acc l))
          = filter (\<lambda>x. getPk x = getPk l) (snd acc)
            @ (if time_of (updated_at l) > time_of (updated_at r) + 1000 then [l] else [])"
  using assms
  by (simp_all add: merge_local_step_def Let_def update_conv')

lemma remote_step_keeps:
  assumes "map_of fm k = Some v"
  shows "map_of (merge_remote_step D t fm r) k = Some v"
proof (cases "getPk r = k")
  case True
  from assms have "k \<in> fst ` set fm" by (metis map_of_eq_None_iff option.distinct(1))
  with True show ?thesis using assms by (simp add: merge_remote_step_def Let_def)
next
  case False
  with assms show ?thesis by (simp add: merge_remote_step_def Let_def update_conv')
qed

lemma foldl_remote_keeps:
  "map_of fm k = Some v \<Longrightarrow> map_of (foldl (merge_remote_step D t) fm rs) k = Some v"
  by (induction rs arbitrary: fm) (simp_all add: remote_step_keeps)

text \<open>
  Claim C1. In the merge of a table, take a local record whose key is not empty and not
  deleted, that is the only local record with its key (primary keys are unique), and
  whose key is also the key of a remote record; \<open>r\<close> is the remote record that
  \<open>remote.find\<close> gives. Then \<open>merged\<close> has exactly one record with that key: the
  local one if \<open>local.updated_at > remote.updated_at + 1000\<close> (an absent timestamp being
  the epoch), the remote one otherwise; and \<open>toUpsert\<close> has the local record in the
  first case and no record with that key in the second. So an exact tie and a local lead
  of up to one second resolve to the remote record.
\<close>

theorem mergeItems_conflict:
  assumes only: "filter (\<lambda>x. getPk x = getPk l) local = [l]"
    and key: "getPk l \<noteq> []"
    and live: "table_key tableName (getPk l) \<notin> deletedSet"
    and match: "find (\<lambda>r. getPk r = getPk l) remote = Some r"
  shows "filter (\<lambda>x. getPk x = getPk l) (merged (mergeItems local remote deletedSet tableName))
           = [if time_of (updated_at l) > time_of (updated_at r) + 1000 then l else r]
       \<and> filter (\<lambda>x. getPk x = getPk l) (toUpsert (mergeItems local remote deletedSet tableName))
           = (if time_of (updated_at l) > time_of (updated_at r) + 1000 then [l] else [])"
proof -
  let ?k = "getPk l"
  let ?step = "merge_local_step remote deletedSet tableName"
  let ?w = "time_of (updated_at l) > time_of (updated_at r) + 1000"
  from only obtain us vs where split: "local = us @ l # vs"
    and us: "\<forall>u \<in> set us. getPk u \<noteq> ?k" and vs: "filter (\<lambda>x. getPk x = ?k) vs = []"
    by (auto simp: filter_eq_Cons_iff)
  from vs have vs': "\<forall>x \<in> set vs. getPk x \<noteq> ?k" by (simp add: filter_empty_conv)
  let ?a1 = "foldl ?step ([], []) us"
  let ?a2 = "?step ?a1 l"
  let ?a3 = "foldl ?step ?a2 vs"
  have a3: "foldl ?step ([], []) local = ?a3" by (simp add: split)
  have up1: "filter (\<lambda>x. getPk x = ?k) (snd ?a1) = []"
    using foldl_local_other_keys[OF us, of remote deletedSet tableName "([], [])"] by simp
  have m2: "map_of (fst ?a2) ?k = Some (if ?w then l else r)"
    by (rule local_step_hit(1)[OF key live match])
  have up2: "filter (\<lambda>x. getPk x = ?k) (snd ?a2) = (if ?w then [l] else [])"
    using local_step_hit(2)[OF key live match, of ?a1] up1 by simp
  have m3: "map_of (fst ?a3) ?k = Some (if ?w then l else r)"
    using foldl_local_other_keys[OF vs', of remote deletedSet tableName ?a2] m2 by simp
  have up3: "filter (\<lambda>x. getPk x = ?k) (snd ?a3) = (if ?w then [l] else [])"
    using foldl_local_other_keys[OF vs', of remote deletedSet tableName ?a2] up2 by simp
  let ?fm = "foldl (merge_remote_step deletedSet tableName) (fst ?a3) remote"
  have m4: "map_of ?fm ?k = Some (if ?w then l else r)"
    by (rule foldl_remote_keeps[OF m3])
  have "keyed ?fm" using keyed_merged[of deletedSet tableName remote "local"] by (simp add: a3)
  from keyed_filter[OF this, of ?k] m4
  have "filter (\<lambda>x. getPk x = ?k) (map snd ?fm) = [if ?w then l else r]" by simp
  with up3 show ?thesis by (simp add: mergeItems_def Let_def a3)
qed

theorem mergeItems_conflict_witness:
  "filter (\<lambda>x. getPk x = getPk (empty_item\<lparr>item_id := Some ''a'', updated_at := Some 1500\<rparr>))
       [empty_item\<lparr>item_id := Some ''a'', updated_at := Some 1500\<rparr>]
     = [empty_item\<lparr>item_id := Some ''a'', updated_at := Some 1500\<rparr>]
   \<and> table_key ''clients'' ''a'' \<notin> {}
   \<and> find (\<lambda>r. getPk r = ''a'') [empty_item\<lparr>item_id := Some ''a'', updated_at := Some 0\<rparr>]
     = Some (empty_item\<lparr>item_id := Some ''a'', updated_at := Some 0\<rparr>)
   \<and> filter (\<lambda>x. getPk x = ''a'') (merged (mergeItems
       [empty_item\<lparr>item_id := Some ''a'', updated_at := Some 1500\<rparr>]
       [empty_item\<lparr>item_id := Some ''a'', updated_at := Some 0\<rparr>] {} ''clients''))
     = [empty_item\<lparr>item_id := Some ''a'', updated_at := Some 1500\<rparr>]
   \<and> filter (\<lambda>x. getPk x = ''a'') (toUpsert (mergeItems
       [empty_item\<lparr>item_id := Some ''a'', updated_at := Some 1500\<rparr>]
       [empty_item\<lparr>item_id := Some ''a'', updated_at := Some 0\<rparr>] {} ''clients''))
     = [empty_item\<lparr>item_id := Some ''a'', updated_at := Some 1500\<rparr>]"
  using mergeItems_conflict[of "empty_item\<lparr>item_id := Some ''a'', updated_at := Some 1500\<rparr>"
      "[empty_item\<lparr>item_id := Some ''a'', updated_at := Some 1500\<rparr>]" "''clients''" "{}"
      "[empty_item\<lparr>item_id := Some ''a'', updated_at := Some 0\<rparr>]"
      "empty_item\<lparr>item_id := Some ''a'', updated_at := Some 0\<rparr>"]
  by (simp add: getPk_def empty_item_def time_of_def table_key_def)

section \<open>Tombstones in a sync cycle\<close>

lemma remote_key_deleted:
  "d \<in> set remoteDeletions \<Longrightarrow> table_key (table_name d) (record_id d) \<in> deletedKeys remoteDeletions ids"
  by (simp add: deletedKeys_def remote_deleted_keys_def)

lemma getPk_pk_opt: "getPk x = (case pk_opt x of Some k \<Rightarrow> k | None \<Rightarrow> [])"
  by (simp add: getPk_def pk_opt_def split: option.splits)

lemma upsertedMap_foldl_keys:
  assumes "\<And>k u. m k = Some u \<Longrightarrow> pk_opt u = k"
    and "foldl (\<lambda>m x. m(pk_opt x \<mapsto> x)) m xs k = Some u"
  shows "pk_opt u = k"
  using assms
proof (induction xs arbitrary: m)
  case Nil
  then show ?case by simp
next
  case (Cons x xs)
  have "\<And>k u. (m(pk_opt x \<mapsto> x)) k = Some u \<Longrightarrow> pk_opt u = k"
    using Cons.prems(1) by (auto split: if_splits)
  from Cons.IH[OF this] Cons.prems(2) show ?case by simp
qed

lemma upsertedMap_key: "upsertedMap up k = Some u \<Longrightarrow> pk_opt u = k"
  unfolding upsertedMap_def by (rule upsertedMap_foldl_keys[of Map.empty]) simp_all

lemma refresh_merged_keys:
  "getPk ` set (refresh_merged up m t) = getPk ` set (m t)"
proof -
  have "getPk (case upsertedMap up (pk_opt x) of Some u \<Rightarrow> u | None \<Rightarrow> x) = getPk x" for x
    by (auto simp: getPk_pk_opt[of x] getPk_pk_opt dest: upsertedMap_key split: option.splits)
  then show ?thesis
    by (simp add: refresh_merged_def image_image)
qed

text \<open>
  Claim C2. In a sync cycle, take a record \<open>r\<close> of a local table and a remote tombstone
  of that table for the key of \<open>r\<close>, deleted at \<open>dt\<close>, with
  \<open>r.updated_at < dt + 2000\<close> (an absent \<open>updated_at\<close> being the epoch). Then the merged
  table of the cycle, as it is published after the server's rows are folded back, has no
  record with the key of \<open>r\<close>; so \<open>r\<close> is absent from it.
\<close>

theorem tombstoned_record_absent:
  assumes "r \<in> set (flattenData data t)"
    and "d \<in> set remoteDeletions"
    and "table_name d = name_of_table t" and "record_id d = getPk r" and "deleted_at d = Some dt"
    and "time_of (updated_at r) < dt + 2000"
  shows "getPk r \<notin> getPk ` set (refresh_merged upserted
           (\<lambda>t. merged (sync_merge data ids remoteFlatData remoteDeletions t)) t)"
proof -
  from remote_key_deleted[OF assms(2), of ids] assms(3,4)
  have "table_key (name_of_table t) (getPk r) \<in> deletedKeys remoteDeletions ids" by simp
  from merge_result_clean[OF this]
  have "getPk r \<notin> getPk ` set (merged (sync_merge data ids remoteFlatData remoteDeletions t))"
    by (simp add: sync_merge_def merge_tables_def)
  then show ?thesis by (simp add: refresh_merged_keys)
qed

theorem tombstoned_record_absent_witness:
  "(row_at ''11'' 32400000)\<lparr>client_id := Some ''1''\<rparr> \<in> set (flattenData scenario_local Cases)
   \<and> \<lparr> table_name = ''cases'', record_id = ''11'', deleted_at = Some 34200000 \<rparr> \<in> set scenario_deletions
   \<and> time_of (updated_at ((row_at ''11'' 32400000)\<lparr>client_id := Some ''1''\<rparr>)) < 34200000 + 2000
   \<and> ''11'' \<notin> getPk ` set (refresh_merged no_rows
         (\<lambda>t. merged (sync_merge scenario_local getInitialDeletedIds scenario_remote scenario_deletions t)) Cases)"
proof -
  have 1: "(row_at ''11'' 32400000)\<lparr>client_id := Some ''1''\<rparr> \<in> set (flattenData scenario_local Cases)"
    by (simp add: scenario_local_def no_data_def flat_cases_def row_at_def empty_item_def item.defs case_rec.defs client.defs)
  have 2: "\<lparr> table_name = ''cases'', record_id = ''11'', deleted_at = Some 34200000 \<rparr> \<in> set scenario_deletions"
    by (simp add: scenario_deletions_def)
  have 3: "time_of (updated_at ((row_at ''11'' 32400000)\<lparr>client_id := Some ''1''\<rparr>)) < 34200000 + 2000"
    by (simp add: row_at_def time_of_def)
  have 4: "getPk ((row_at ''11'' 32400000)\<lparr>client_id := Some ''1''\<rparr>) = ''11''"
    by (simp add: row_at_def getPk_def)
  from tombstoned_record_absent[OF 1 2 _ _ _ 3, of no_rows getInitialDeletedIds scenario_remote] 1 2 3 4
  show ?thesis by simp
qed

text \<open>
  Claim C3, on the code. A local record edited two seconds or more after its remote
  deletion passes \<open>applyDeletionsToLocal\<close>, which compares the timestamps, but the merge
  that follows is given the key of every remote tombstone as a deleted key and skips the
  record without looking at its timestamp: the record is neither in the merged table nor
  marked for push. Here on client \<open>c1\<close>, edited at 10000 ms and deleted remotely at 0 ms.
\<close>

theorem edited_record_not_resurrected:
  "time_of (updated_at (row_at ''c1'' 10000)) \<ge> 0 + 2000
   \<and> applyDeletionsToLocal (flattenData edited_local) edited_deletions Clients = [row_at ''c1'' 10000]
   \<and> merged (sync_merge edited_local getInitialDeletedIds no_rows edited_deletions Clients) = []
   \<and> toUpsert (sync_merge edited_local getInitialDeletedIds no_rows edited_deletions Clients) = []"
proof -
  have f: "flattenData edited_local Clients = [row_at ''c1'' 10000]"
    by (simp add: edited_local_def no_data_def row_at_def empty_item_def item.defs client.defs)
  have a: "applyDeletionsToLocal (flattenData edited_local) edited_deletions Clients = [row_at ''c1'' 10000]"
    by (simp add: applyDeletionsToLocal_def edited_deletions_def Let_def filterItems_def survives_def
        deletionMap_def table_key_def pk_text_def row_at_def empty_item_def time_of_def
        edited_local_def no_data_def item.defs client.defs)
  have k: "''clients:c1'' \<in> deletedKeys edited_deletions getInitialDeletedIds"
    by (simp add: deletedKeys_def remote_deleted_keys_def edited_deletions_def table_key_def)
  have m: "mergeItems [row_at ''c1'' 10000] [] (deletedKeys edited_deletions getInitialDeletedIds) ''clients''
             = \<lparr> merged = [], toUpsert = [] \<rparr>"
    using k by (simp add: mergeItems_def merge_local_step_def Let_def getPk_def row_at_def empty_item_def table_key_def)
  show ?thesis
    using a m by (simp add: sync_merge_def merge_tables_def no_rows_def row_at_def time_of_def)
qed

section \<open>Round trip of the entity mapper\<close>

lemma group_get_foldl:
  "group_get (foldl (\<lambda>m v. group_push m (key v) v) m xs) k = group_get m k @ filter (\<lambda>v. key v = k) xs"
proof (induction xs arbitrary: m)
  case Nil
  then show ?case by simp
next
  case (Cons x xs)
  have "group_get (group_push m (key x) x) k = group_get m k @ (if key x = k then [x] else [])"
    by (simp add: group_get_def group_push_def split: option.splits)
  with Cons.IH[of "group_push m (key x) x"] show ?case by simp
qed

lemma group_get_group_by: "group_get (group_by key xs) k = filter (\<lambda>v. key v = k) xs"
  by (simp add: group_by_def group_get_foldl) (simp add: group_get_def)

lemma children_of_parent:
  assumes "distinct (map pid ps)" and "p \<in> set ps"
    and "\<forall>q \<in> set ps. \<forall>c \<in> set (ch q). fk c = pid q"
  shows "filter (\<lambda>c. fk c = pid p) (concat (map ch ps)) = ch p"
  using assms
proof (induction ps)
  case Nil
  then show ?case by simp
next
  case (Cons q ps)
  have own: "filter (\<lambda>c. fk c = pid q) (ch q) = ch q"
    using Cons.prems(3) by (simp add: filter_id_conv)
  show ?case
  proof (cases "p = q")
    case True
    have "\<forall>q' \<in> set ps. \<forall>c \<in> set (ch q'). fk c \<noteq> pid q"
    proof (intro ballI)
      fix q' c assume q': "q' \<in> set ps" and c: "c \<in> set (ch q')"
      from Cons.prems(3) q' c have "fk c = pid q'" by simp
      moreover from Cons.prems(1) q' have "pid q' \<noteq> pid q" by (metis distinct.simps(2) image_eqI list.simps(9) set_map)
      ultimately show "fk c \<noteq> pid q" by simp
    qed
    then have "filter (\<lambda>c. fk c = pid q) (concat (map ch ps)) = []"
      by (auto simp: filter_empty_conv)
    with own True show ?thesis by simp
  next
    case False
    with Cons.prems have p: "p \<in> set ps" and d: "distinct (map pid ps)"
      and fkq: "\<forall>c \<in> set (ch q). fk c = pid q" and rest: "\<forall>q \<in> set ps. \<forall>c \<in> set (ch q). fk c = pid q"
      by simp_all
    from Cons.prems(1) p have ne: "pid p \<noteq> pid q"
      by (metis distinct.simps(2) image_eqI list.simps(9) set_map)
    from fkq ne have "filter (\<lambda>c. fk c = pid p) (ch q) = []"
      by (auto simp: filter_empty_conv)
    with Cons.IH[OF d p rest] show ?thesis by simp
  qed
qed

lemma foldl_set_add_distinct:
  "distinct xs \<Longrightarrow> set acc \<inter> set xs = {} \<Longrightarrow> foldl set_add acc xs = acc @ xs"
proof (induction xs arbitrary: acc)
  case Nil
  then show ?case by simp
next
  case (Cons x xs)
  then have "set_add acc x = acc @ [x]" by (simp add: set_add_def)
  moreover have "foldl set_add (acc @ [x]) xs = (acc @ [x]) @ xs"
    using Cons.prems by (intro Cons.IH) auto
  ultimately show ?case by simp
qed

lemma truthy_names_Some: "[] \<notin> set ns \<Longrightarrow> truthy_names (map Some ns) = ns"
  by (induction ns) (auto simp: truthy_names_def)

lemma flat_cases_wf: "wf_tree d \<Longrightarrow> flat_cases d = all_cases d"
  unfolding flat_cases_def all_cases_def wf_tree_def
  by (intro arg_cong[where f = concat] map_cong refl map_idI) simp

lemma flat_stages_wf: "wf_tree d \<Longrightarrow> flat_stages d = all_stages d"
  unfolding flat_stages_def all_stages_def
  by (simp add: flat_cases_wf) (simp add: wf_tree_def, intro arg_cong[where f = concat] map_cong refl map_idI, simp)

lemma flat_sessions_wf: "wf_tree d \<Longrightarrow> flat_sessions d = concat (map sessions (all_stages d))"
  unfolding flat_sessions_def
  by (simp add: flat_stages_wf) (simp add: wf_tree_def, intro arg_cong[where f = concat] map_cong refl map_idI, simp)

lemma flat_invoice_items_wf: "wf_tree d \<Longrightarrow> flat_invoice_items d = concat (map items (invoices d))"
  unfolding flat_invoice_items_def wf_tree_def
  by (intro arg_cong[where f = concat] map_cong refl map_idI) simp

lemma extend_truncate_stage: "item.extend (item.truncate st) (stage.fields (sessions st)) = (st::stage)"
  by (cases st) (simp add: item.defs stage.defs)

lemma extend_truncate_case: "item.extend (item.truncate cs) (case_rec.fields (stages cs)) = (cs::case_rec)"
  by (cases cs) (simp add: item.defs case_rec.defs)

lemma extend_truncate_client: "item.extend (item.truncate c) (client.fields (cases c)) = (c::client)"
  by (cases c) (simp add: item.defs client.defs)

lemma extend_truncate_invoice: "item.extend (item.truncate i) (invoice.fields (items i)) = (i::invoice)"
  by (cases i) (simp add: item.defs invoice.defs)

lemma item_id_truncate: "item_id (item.truncate x) = item_id x"
  by (simp add: item.defs)

lemma construct_stages_flatten:
  assumes "wf_tree d"
  shows "construct_stages (flattenData d) = all_stages d"
proof -
  have "filter (\<lambda>s. stage_id s = item_id st) (concat (map sessions (all_stages d))) = sessions st"
    if "st \<in> set (all_stages d)" for st
    using assms that by (intro children_of_parent) (simp_all add: wf_tree_def)
  then show ?thesis
    by (simp add: construct_stages_def Let_def group_get_group_by flat_sessions_wf[OF assms]
        flat_stages_wf[OF assms] o_def item_id_truncate extend_truncate_stage cong: map_cong)
qed

lemma construct_cases_flatten:
  assumes "wf_tree d"
  shows "construct_cases (flattenData d) = all_cases d"
proof -
  have "filter (\<lambda>st. case_id st = item_id cs) (concat (map stages (all_cases d))) = stages cs"
    if "cs \<in> set (all_cases d)" for cs
    using assms that by (intro children_of_parent) (simp_all add: wf_tree_def)
  then show ?thesis
    by (simp add: construct_cases_def Let_def group_get_group_by construct_stages_flatten[OF assms]
        flat_cases_wf[OF assms] all_stages_def o_def item_id_truncate extend_truncate_case cong: map_cong)
qed

text \<open>
  Claim C5. For every well-formed tree, that is one whose clients, cases, stages and
  invoices have distinct ids, whose nested records carry the id of their parent as their
  foreign key, and whose assistant names are distinct and not empty, reconstructing the
  flattened tables gives the tree back: \<open>constructData (flattenData d) = d\<close>.
\<close>

theorem construct_flatten_roundtrip:
  assumes "wf_tree d"
  shows "constructData (flattenData d) = d"
proof -
  have cl: "filter (\<lambda>cs. client_id cs = item_id c) (concat (map cases (clients d))) = cases c"
    if "c \<in> set (clients d)" for c
    using assms that by (intro children_of_parent) (simp_all add: wf_tree_def)
  have inv: "filter (\<lambda>it. invoice_id it = item_id i) (concat (map items (invoices d))) = items i"
    if "i \<in> set (invoices d)" for i
    using assms that by (intro children_of_parent) (simp_all add: wf_tree_def)
  have 1: "clients (constructData (flattenData d)) = clients d"
    using cl by (simp add: constructData_def Let_def group_get_group_by construct_cases_flatten[OF assms]
        all_cases_def o_def item_id_truncate extend_truncate_client cong: map_cong)
  have 2: "invoices (constructData (flattenData d)) = invoices d"
    using inv by (simp add: constructData_def Let_def group_get_group_by flat_invoice_items_wf[OF assms]
        o_def item_id_truncate extend_truncate_invoice cong: map_cong)
  have "foldl set_add [] (map Some (assistants d)) = [] @ map Some (assistants d)"
    using assms by (intro foldl_set_add_distinct) (simp_all add: wf_tree_def distinct_map)
  then have 3: "assistants (constructData (flattenData d)) = assistants d"
    using assms by (simp add: constructData_def Let_def o_def truthy_names_Some wf_tree_def)
  have 4: "adminTasks (constructData (flattenData d)) = adminTasks d"
    "appointments (constructData (flattenData d)) = appointments d"
    "accountingEntries (constructData (flattenData d)) = accountingEntries d"
    "documents (constructData (flattenData d)) = documents d"
    "profiles (constructData (flattenData d)) = profiles d"
    "siteFinances (constructData (flattenData d)) = siteFinances d"
    by (simp_all add: constructData_def Let_def)
  from 1 2 3 4 show ?thesis by (intro app_data.equality) simp_all
qed

theorem construct_flatten_roundtrip_witness:
  "wf_tree nested_example \<and> constructData (flattenData nested_example) = nested_example"
proof -
  have "wf_tree nested_example"
    by (simp add: wf_tree_def all_stages_def all_cases_def nested_example_def no_data_def row_at_def
        empty_item_def item.defs client.defs case_rec.defs stage.defs invoice.defs)
  with construct_flatten_roundtrip[of nested_example] show ?thesis by simp
qed

section \<open>Failure of a full sync\<close>

lemma manualSync_run:
  assumes "syncStatus p \<noteq> Syncing" and "\<not> isAuthLoading p" and "isOnline p"
    and "user p = Some uid" and "schema e = SchemaOk"
  shows "manualSync e p =
     (case sync_try e p uid of
        (ev, tr, Inl err) \<Rightarrow>
          \<lparr> events = (Syncing, Some MsgCheckingCloud) # ev @ [(Error, Some (catch_message err))],
            ops = tr, dataSynced = None, deletionsSynced = None \<rparr>
      | (ev, tr, Inr (mergedData, successfulDeletions)) \<Rightarrow>
          \<lparr> events = (Syncing, Some MsgCheckingCloud) # ev @ [(Synced, None)],
            ops = tr, dataSynced = Some mergedData, deletionsSynced = Some successfulDeletions \<rparr>)"
  using assms by (simp add: manualSync_def split: prod.splits sum.splits)

lemma manualSync_failed:
  assumes "syncStatus p \<noteq> Syncing" and "\<not> isAuthLoading p" and "isOnline p"
    and "user p = Some uid" and "schema e = SchemaOk"
    and "sync_try e p uid = (ev, tr, Inl err)"
  shows "last (events (manualSync e p)) = (Error, Some (catch_message err))"
    and "ops (manualSync e p) = tr"
    and "dataSynced (manualSync e p) = None"
    and "deletionsSynced (manualSync e p) = None"
  using assms(6) by (simp_all add: manualSync_run[OF assms(1-5)])

lemma catch_message_nonempty: "message_nonempty (catch_message err)"
  by (simp add: catch_message_def message_nonempty_def)

lemma all_tables: "t \<in> set tables"
  by (cases t) (simp_all add: tables_def)

lemma sync_try_fetch_failed:
  "fetchDataFromSupabase e = Inl err \<Longrightarrow> sync_try e p uid = ([(Syncing, Some MsgFetching)], [], Inl err)"
  by (simp add: sync_try_def)

lemma sync_try_of_push:
  assumes "fetchDataFromSupabase e = Inr remote"
    and "sync_push e p uid remote (fetchDeletionsFromSupabase e) = (ev, tr, res)"
  shows "sync_try e p uid = ((Syncing, Some MsgFetching) # ev, tr, res)"
  using assms by (simp add: sync_try_def)

lemma sync_push_delete_failed:
  assumes "remove_queued_blobs e (deletedIds p) = (Inr s0, tr0)"
    and "list_ex (\<lambda>t. flatDeletes (deletedIds p) t \<noteq> []) tables"
    and "deleteDataFromSupabase e (flatDeletes (deletedIds p)) uid = (tr1, Inl err)"
  shows "sync_push e p uid remote rd = ([(Syncing, Some MsgSendingDeletions)], tr0 @ tr1, Inl err)"
  using assms by (simp add: sync_push_def Let_def)

lemma sync_push_blob_failed:
  assumes "remove_queued_blobs e (deletedIds p) = (Inl err, tr0)"
  shows "sync_push e p uid remote rd = ([], tr0, Inl err)"
  using assms by (simp add: sync_push_def Let_def)

lemma sync_push_fails_with_delete:
  assumes "list_ex (\<lambda>t. flatDeletes (deletedIds p) t \<noteq> []) tables"
    and "snd (deleteDataFromSupabase e (flatDeletes (deletedIds p)) uid) = Inl err"
  shows "\<exists>ev tr err'. sync_push e p uid remote rd = (ev, tr, Inl err')"
proof -
  obtain b tr0 where b: "remove_queued_blobs e (deletedIds p) = (b, tr0)" by (cases "remove_queued_blobs e (deletedIds p)")
  obtain tr1 where d: "deleteDataFromSupabase e (flatDeletes (deletedIds p)) uid = (tr1, Inl err)"
    using assms(2) by (cases "deleteDataFromSupabase e (flatDeletes (deletedIds p)) uid") simp
  show ?thesis
  proof (cases b)
    case (Inl a)
    with b show ?thesis by (simp add: sync_push_blob_failed)
  next
    case (Inr s0)
    with b sync_push_delete_failed[OF _ assms(1) d] show ?thesis by simp
  qed
qed

lemma sync_push_fails_with_upsert:
  assumes "snd (upsertDataToSupabase e (\<lambda>t. toUpsert (sync_merge (localData p) (deletedIds p) remote rd t)) uid) = Inl err"
  shows "\<exists>ev tr err'. sync_push e p uid remote rd = (ev, tr, Inl err')"
proof -
  obtain tr2 where u: "upsertDataToSupabase e (\<lambda>t. toUpsert (sync_merge (localData p) (deletedIds p) remote rd t)) uid = (tr2, Inl err)"
    using assms by (cases "upsertDataToSupabase e (\<lambda>t. toUpsert (sync_merge (localData p) (deletedIds p) remote rd t)) uid") simp
  show ?thesis
    using u by (simp add: sync_push_def Let_def split: prod.splits sum.splits)
qed

text \<open>
  Claim C9. When a full sync passes its guards and the schema probe, and then the fetch
  throws, or the deletion push throws, or the upsert throws, the run ends with the status
  \<open>error\<close> and a message that is not empty, and neither \<open>onDataSynced\<close> nor
  \<open>onDeletionsSynced\<close> is called: the merged data is not published and the local
  snapshot and pending lists stay as they were.
\<close>

theorem failed_sync_publishes_nothing:
  assumes "syncStatus p \<noteq> Syncing" and "\<not> isAuthLoading p" and "isOnline p"
    and "user p = Some uid" and "schema e = SchemaOk"
    and "(\<exists>err. fetchDataFromSupabase e = Inl err)
       \<or> (\<exists>remote err. fetchDataFromSupabase e = Inr remote
            \<and> ((list_ex (\<lambda>t. flatDeletes (deletedIds p) t \<noteq> []) tables
                 \<and> snd (deleteDataFromSupabase e (flatDeletes (deletedIds p)) uid) = Inl err)
               \<or> snd (upsertDataToSupabase e
                     (\<lambda>t. toUpsert (sync_merge (localData p) (deletedIds p) remote (fetchDeletionsFromSupabase e) t))
                     uid) = Inl err))"
  shows "\<exists>m. last (events (manualSync e p)) = (Error, Some m) \<and> message_nonempty m
           \<and> dataSynced (manualSync e p) = None \<and> deletionsSynced (manualSync e p) = None"
proof -
  have "\<exists>ev tr err. sync_try e p uid = (ev, tr, Inl err)"
    using assms(6)
  proof (elim disjE exE conjE)
    fix err assume "fetchDataFromSupabase e = Inl err"
    then show ?thesis by (simp add: sync_try_fetch_failed)
  next
    fix remote err
    assume f: "fetchDataFromSupabase e = Inr remote"
      and "list_ex (\<lambda>t. flatDeletes (deletedIds p) t \<noteq> []) tables"
      and "snd (deleteDataFromSupabase e (flatDeletes (deletedIds p)) uid) = Inl err"
    from sync_push_fails_with_delete[OF this(2,3), of remote "fetchDeletionsFromSupabase e"]
    obtain ev tr err' where "sync_push e p uid remote (fetchDeletionsFromSupabase e) = (ev, tr, Inl err')"
      by blast
    from sync_try_of_push[OF f this] show ?thesis by blast
  next
    fix remote err
    assume f: "fetchDataFromSupabase e = Inr remote"
      and "snd (upsertDataToSupabase e
             (\<lambda>t. toUpsert (sync_merge (localData p) (deletedIds p) remote (fetchDeletionsFromSupabase e) t))
             uid) = Inl err"
    from sync_push_fails_with_upsert[OF this(2)]
    obtain ev tr err' where "sync_push e p uid remote (fetchDeletionsFromSupabase e) = (ev, tr, Inl err')"
      by blast
    from sync_try_of_push[OF f this] show ?thesis by blast
  qed
  then obtain ev tr err where "sync_try e p uid = (ev, tr, Inl err)" by blast
  from manualSync_failed[OF assms(1-5) this] catch_message_nonempty[of err]
  show ?thesis by simp
qed

lemma unreachable_fetch:
  "fetchDataFromSupabase unreachable_env = Inl (plain_error ''Fetch clients failed: TypeError: failed to fetch'')"
  by (simp add: fetchDataFromSupabase_def unreachable_env_def quiet_env_def fetch_names_def)

theorem failed_sync_publishes_nothing_witness:
  "fetchDataFromSupabase unreachable_env = Inl (plain_error ''Fetch clients failed: TypeError: failed to fetch'')
   \<and> last (events (manualSync unreachable_env pending_props)) = (Error, Some MsgServerUnreachable)
   \<and> dataSynced (manualSync unreachable_env pending_props) = None
   \<and> deletionsSynced (manualSync unreachable_env pending_props) = None"
proof -
  have g: "syncStatus pending_props \<noteq> Syncing" "\<not> isAuthLoading pending_props" "isOnline pending_props"
    "user pending_props = Some ''u''" "schema unreachable_env = SchemaOk"
    by (simp_all add: pending_props_def unreachable_env_def quiet_env_def)
  have c: "catch_message (plain_error ''Fetch clients failed: TypeError: failed to fetch'') = MsgServerUnreachable"
    by (simp add: catch_message_def plain_error_def)
  have l: "last (events (manualSync unreachable_env pending_props)) = (Error, Some MsgServerUnreachable)"
    using manualSync_failed(1)[OF g sync_try_fetch_failed[OF unreachable_fetch]] c by simp
  from failed_sync_publishes_nothing[OF g] unreachable_fetch l show ?thesis by auto
qed

section \<open>The upsert phase\<close>

lemma upsert_loop_ops:
  "Upsert t rows opt \<in> set (fst (upsert_loop e batches ts tr res))
   \<Longrightarrow> Upsert t rows opt \<in> set tr \<or> rows = batches t"
proof (induction ts arbitrary: tr res)
  case Nil
  then show ?case by simp
next
  case (Cons a ts)
  show ?case
  proof (cases "batches a = []")
    case True
    with Cons show ?thesis by simp
  next
    case False
    show ?thesis
    proof (cases "upsert_rows e a (batches a)")
      case (Inl m)
      with False Cons.prems show ?thesis by auto
    next
      case (Inr resData)
      with False Cons.prems
      have "Upsert t rows opt \<in> set (fst (upsert_loop e batches ts (tr @ [Upsert a (batches a) (upsert_options a)]) (res(a := resData))))"
        by simp
      from Cons.IH[OF this] show ?thesis by auto
    qed
  qed
qed

lemma upsert_ops_are_batches:
  "Upsert t rows opt \<in> set (fst (upsertDataToSupabase e data uid)) \<Longrightarrow> rows = upsert_batch data uid t"
  using upsert_loop_ops[of t rows opt e "upsert_batch data uid" upsertOrder "[]"]
  by (auto simp: upsertDataToSupabase_def split: if_splits)

lemma with_columns_fields:
  "client_id (with_columns cols x) = client_id x" "case_id (with_columns cols x) = case_id x"
  "stage_id (with_columns cols x) = stage_id x" "invoice_id (with_columns cols x) = invoice_id x"
  "caseId (with_columns cols x) = caseId x"
  by (simp_all add: with_columns_def)

lemma upsert_row_keeps_parent:
  "client_id (upsert_row uid Cases x) = client_id x"
  "case_id (upsert_row uid Stages x) = case_id x"
  "stage_id (upsert_row uid Sessions x) = stage_id x"
  "invoice_id (upsert_row uid InvoiceItems x) = invoice_id x"
  "caseId (upsert_row uid CaseDocuments x) = caseId x"
  by (simp_all add: with_columns_fields empty_item_def)

lemma sent_rows_have_parents:
  assumes "Upsert t rows opt \<in> set (fst (upsertDataToSupabase e data uid))" and "r \<in> set rows"
  shows "(t = Cases \<longrightarrow> client_id r \<in> set (map item_id (data Clients)))
       \<and> (t = Stages \<longrightarrow> case_id r \<in> set (map item_id (data Cases)))
       \<and> (t = Sessions \<longrightarrow> stage_id r \<in> set (map item_id (data Stages)))
       \<and> (t = InvoiceItems \<longrightarrow> invoice_id r \<in> set (map item_id (data Invoices)))
       \<and> (t = CaseDocuments \<longrightarrow> caseId r \<in> set (map item_id (data Cases)))"
proof -
  from upsert_ops_are_batches[OF assms(1)] assms(2)
  obtain x where x: "x \<in> set (data t)" "not_orphan data t x" and r: "r = upsert_row uid t x"
    by (auto simp: upsert_batch_def)
  have "t = Cases \<longrightarrow> client_id r \<in> set (map item_id (data Clients))"
    using x r by (auto simp: not_orphan_def upsert_row_keeps_parent simp del: upsert_row.simps)
  moreover have "t = Stages \<longrightarrow> case_id r \<in> set (map item_id (data Cases))"
    using x r by (auto simp: not_orphan_def upsert_row_keeps_parent simp del: upsert_row.simps)
  moreover have "t = Sessions \<longrightarrow> stage_id r \<in> set (map item_id (data Stages))"
    using x r by (auto simp: not_orphan_def upsert_row_keeps_parent simp del: upsert_row.simps)
  moreover have "t = InvoiceItems \<longrightarrow> invoice_id r \<in> set (map item_id (data Invoices))"
    using x r by (auto simp: not_orphan_def upsert_row_keeps_parent simp del: upsert_row.simps)
  moreover have "t = CaseDocuments \<longrightarrow> caseId r \<in> set (map item_id (data Cases))"
    using x r by (auto simp: not_orphan_def upsert_row_keeps_parent simp del: upsert_row.simps)
  ultimately show ?thesis by blast
qed

lemma upsert_loop_success:
  assumes "\<forall>t rows m. upsert_rows e t rows \<noteq> Inl m"
  shows "fst (upsert_loop e batches ts tr res)
           = tr @ map (\<lambda>t. Upsert t (batches t) (upsert_options t)) (filter (\<lambda>t. batches t \<noteq> []) ts)
       \<and> (\<exists>results. snd (upsert_loop e batches ts tr res) = Inr results)"
proof (induction ts arbitrary: tr res)
  case Nil
  then show ?case by simp
next
  case (Cons a ts)
  show ?case
  proof (cases "batches a = []")
    case True
    with Cons.IH show ?thesis by simp
  next
    case False
    show ?thesis
    proof (cases "upsert_rows e a (batches a)")
      case (Inl m)
      with assms show ?thesis by simp
    next
      case (Inr resData)
      with False Cons.IH show ?thesis by simp
    qed
  qed
qed

text \<open>
  Claim C6, as amended. In the upsert phase every row of the batch sent for a child table
  has its parent id among the ids of the parent table of the write set \<open>data\<close> that was
  handed to the phase: a case its client among \<open>data.clients\<close>, a stage its case among
  \<open>data.cases\<close>, a session its stage among \<open>data.stages\<close>, an invoice item its invoice
  among \<open>data.invoices\<close>, a case document its case among \<open>data.cases\<close>. So a child
  record whose parent id is not in the write set is not in the batch of its table. The
  filtering is silent and raises nothing, whatever the write set is: when the client is
  configured and no upsert call of the remote store reports an error, the phase ends
  without error and has sent, in the order of the tables, exactly the non-empty batches
  of the records that passed the filter.
\<close>

theorem orphans_not_upserted:
  "(\<forall>t rows opt r. Upsert t rows opt \<in> set (fst (upsertDataToSupabase e data uid)) \<and> r \<in> set rows \<longrightarrow>
       (t = Cases \<longrightarrow> client_id r \<in> set (map item_id (data Clients)))
     \<and> (t = Stages \<longrightarrow> case_id r \<in> set (map item_id (data Cases)))
     \<and> (t = Sessions \<longrightarrow> stage_id r \<in> set (map item_id (data Stages)))
     \<and> (t = InvoiceItems \<longrightarrow> invoice_id r \<in> set (map item_id (data Invoices)))
     \<and> (t = CaseDocuments \<longrightarrow> caseId r \<in> set (map item_id (data Cases))))
   \<and> (client e \<and> (\<forall>t rows m. upsert_rows e t rows \<noteq> Inl m) \<longrightarrow>
        (\<exists>results. snd (upsertDataToSupabase e data uid) = Inr results)
      \<and> fst (upsertDataToSupabase e data uid)
          = map (\<lambda>t. Upsert t (map (upsert_row uid t) (filter (not_orphan data t) (data t))) (upsert_options t))
              (filter (\<lambda>t. filter (not_orphan data t) (data t) \<noteq> []) upsertOrder))"
proof (intro conjI allI impI)
  fix t rows opt r
  assume a: "Upsert t rows opt \<in> set (fst (upsertDataToSupabase e data uid)) \<and> r \<in> set rows"
  then have 1: "Upsert t rows opt \<in> set (fst (upsertDataToSupabase e data uid))" and 2: "r \<in> set rows"
    by simp_all
  note p = sent_rows_have_parents[OF 1 2]
  { assume "t = Cases" with p show "client_id r \<in> set (map item_id (data Clients))" by blast }
  { assume "t = Stages" with p show "case_id r \<in> set (map item_id (data Cases))" by blast }
  { assume "t = Sessions" with p show "stage_id r \<in> set (map item_id (data Stages))" by blast }
  { assume "t = InvoiceItems" with p show "invoice_id r \<in> set (map item_id (data Invoices))" by blast }
  { assume "t = CaseDocuments" with p show "caseId r \<in> set (map item_id (data Cases))" by blast }
next
  assume ok: "client e \<and> (\<forall>t rows m. upsert_rows e t rows \<noteq> Inl m)"
  then have noerr: "\<forall>t rows m. upsert_rows e t rows \<noteq> Inl m" by simp
  from upsert_loop_success[OF noerr, of "upsert_batch data uid" upsertOrder "[]" "\<lambda>t. []"] ok
  show "\<exists>results. snd (upsertDataToSupabase e data uid) = Inr results"
    by (simp add: upsertDataToSupabase_def)
next
  assume ok: "client e \<and> (\<forall>t rows m. upsert_rows e t rows \<noteq> Inl m)"
  then have noerr: "\<forall>t rows m. upsert_rows e t rows \<noteq> Inl m" by simp
  from upsert_loop_success[OF noerr, of "upsert_batch data uid" upsertOrder "[]" "\<lambda>t. []"] ok
  show "fst (upsertDataToSupabase e data uid)
          = map (\<lambda>t. Upsert t (map (upsert_row uid t) (filter (not_orphan data t) (data t))) (upsert_options t))
              (filter (\<lambda>t. filter (not_orphan data t) (data t) \<noteq> []) upsertOrder)"
    by (simp add: upsertDataToSupabase_def upsert_batch_def)
qed

lemma orphan_writes_ops:
  "fst (upsertDataToSupabase quiet_env orphan_writes ''u'')
     = [Upsert Clients [(row_at ''c'' 0)\<lparr>user_id := Some ''u''\<rparr>] None,
        Upsert Cases [(row_at ''k1'' 0)\<lparr>user_id := Some ''u'', client_id := Some ''c''\<rparr>] None]"
  by (simp add: upsertDataToSupabase_def quiet_env_def upsertOrder_def upsert_batch_def orphan_writes_def
      no_rows_def not_orphan_def with_columns_def put_prop_def row_at_def empty_item_def upsert_options_def Let_def)

theorem orphans_not_upserted_witness:
  "client quiet_env
   \<and> Upsert Cases [(row_at ''k1'' 0)\<lparr>user_id := Some ''u'', client_id := Some ''c''\<rparr>] None
      \<in> set (fst (upsertDataToSupabase quiet_env orphan_writes ''u''))
   \<and> client_id ((row_at ''k1'' 0)\<lparr>user_id := Some ''u'', client_id := Some ''c''\<rparr>)
      \<in> set (map item_id (orphan_writes Clients))
   \<and> (\<exists>results. snd (upsertDataToSupabase quiet_env orphan_writes ''u'') = Inr results)"
proof -
  have 1: "Upsert Cases [(row_at ''k1'' 0)\<lparr>user_id := Some ''u'', client_id := Some ''c''\<rparr>] None
      \<in> set (fst (upsertDataToSupabase quiet_env orphan_writes ''u''))"
    by (simp add: orphan_writes_ops)
  have 2: "client quiet_env \<and> (\<forall>t rows m. upsert_rows quiet_env t rows \<noteq> Inl m)"
    by (simp add: quiet_env_def)
  note inst = orphans_not_upserted[of quiet_env orphan_writes "''u''"]
  have 3: "client_id ((row_at ''k1'' 0)\<lparr>user_id := Some ''u'', client_id := Some ''c''\<rparr>)
      \<in> set (map item_id (orphan_writes Clients))"
    using inst[THEN conjunct1, rule_format, of Cases
        "[(row_at ''k1'' 0)\<lparr>user_id := Some ''u'', client_id := Some ''c''\<rparr>]" None
        "(row_at ''k1'' 0)\<lparr>user_id := Some ''u'', client_id := Some ''c''\<rparr>"] 1
    by simp
  have 4: "\<exists>results. snd (upsertDataToSupabase quiet_env orphan_writes ''u'') = Inr results"
    using inst[THEN conjunct2, THEN mp, OF 2] by (rule conjunct1)
  from 1 2 3 4 show ?thesis by simp
qed

text \<open>
  Claim C6 as stated fails where it speaks of the parents that are pushed: the valid
  parent ids are those of the write set before the filter. Here case \<open>k2\<close> is dropped as
  an orphan, so no case is pushed, and stage \<open>s2\<close> of \<open>k2\<close> is still sent.
\<close>

theorem stage_of_dropped_case_is_sent:
  "fst (upsertDataToSupabase quiet_env dropped_parent_writes ''u'')
     = [Upsert Clients [(row_at ''c'' 0)\<lparr>user_id := Some ''u''\<rparr>] None,
        Upsert Stages [(row_at ''s2'' 0)\<lparr>user_id := Some ''u'', case_id := Some ''k2''\<rparr>] None]
   \<and> case_id ((row_at ''s2'' 0)\<lparr>user_id := Some ''u'', case_id := Some ''k2''\<rparr>) = Some ''k2''"
  by (simp add: upsertDataToSupabase_def quiet_env_def upsertOrder_def upsert_batch_def dropped_parent_writes_def
      no_rows_def not_orphan_def with_columns_def put_prop_def row_at_def empty_item_def upsert_options_def Let_def)

section \<open>The deletion push\<close>

lemma delete_loop_throws:
  assumes "Profiles \<notin> set ts" and "t \<in> set ts" and "deletions t \<noteq> []"
  shows "delete_loop e deletions uid (ts @ rest) tr = (tr, Inl catch_type_error)"
  using assms
proof (induction ts)
  case Nil
  then show ?case by simp
next
  case (Cons a ts)
  show ?case
  proof (cases "deletions a = []")
    case True
    with Cons.prems have "t \<in> set ts" by auto
    with Cons True show ?thesis by simp
  next
    case False
    from Cons.prems(1) have "a \<noteq> Profiles" by auto
    with False show ?thesis by (simp add: Let_def)
  qed
qed

lemma deletionOrder_split:
  "deletionOrder = [CaseDocuments, InvoiceItems, Sessions, Stages, Cases, Invoices, AdminTasks,
     Appointments, AccountingEntries, Assistants, Clients, SiteFinances] @ [Profiles]"
  by (simp add: deletionOrder_def)

lemma before_profiles:
  "t \<noteq> Profiles \<Longrightarrow> t \<in> set [CaseDocuments, InvoiceItems, Sessions, Stages, Cases, Invoices, AdminTasks,
     Appointments, AccountingEntries, Assistants, Clients, SiteFinances]"
  by (cases t) simp_all

lemma deleteData_throws:
  assumes "client e" and "t \<noteq> Profiles" and "deletions t \<noteq> []"
  shows "deleteDataFromSupabase e deletions uid = ([], Inl catch_type_error)"
proof -
  have "delete_loop e deletions uid
          ([CaseDocuments, InvoiceItems, Sessions, Stages, Cases, Invoices, AdminTasks,
            Appointments, AccountingEntries, Assistants, Clients, SiteFinances] @ [Profiles]) []
        = ([], Inl catch_type_error)"
    using before_profiles[OF assms(2)] assms(3)
    by (intro delete_loop_throws[where t = t and deletions = deletions]) simp_all
  with assms(1) show ?thesis
    by (simp only: deleteDataFromSupabase_def deletionOrder_split not_True_eq_False if_False)
qed

text \<open>
  Claim C7, on the code. The loop of \<open>deleteDataFromSupabase\<close> goes through the tables in
  the fixed order of the claim, but for the first table that has something to delete and
  is not \<open>profiles\<close> it throws the \<open>TypeError\<close> of the \<open>.catch\<close> call on the query
  builder, before any delete call: no deletion is pushed, in any order. The error has no
  table.
\<close>

theorem deletion_push_throws_before_delete:
  assumes "client e" and "t \<noteq> Profiles" and "deletions t \<noteq> []"
  shows "fst (deleteDataFromSupabase e deletions uid) = []
       \<and> snd (deleteDataFromSupabase e deletions uid) = Inl catch_type_error
       \<and> err_table catch_type_error = None"
  using deleteData_throws[where t = t and deletions = deletions, OF assms]
  by (simp add: catch_type_error_def plain_error_def)

theorem deletion_push_throws_before_delete_witness:
  "client quiet_env \<and> three_deletes CaseDocuments = [row_at ''d'' 0]
   \<and> fst (deleteDataFromSupabase quiet_env three_deletes ''u'') = []
   \<and> snd (deleteDataFromSupabase quiet_env three_deletes ''u'')
       = Inl \<lparr> err_message = ''supabase.from(...).insert(...).select(...).catch is not a function'',
               err_table = None \<rparr>"
proof -
  have 1: "client quiet_env" by (simp add: quiet_env_def)
  have 2: "CaseDocuments \<noteq> Profiles" by simp
  have 3: "three_deletes CaseDocuments = [row_at ''d'' 0]" by (simp add: three_deletes_def)
  then have 4: "three_deletes CaseDocuments \<noteq> []" by simp
  from deletion_push_throws_before_delete[where t = CaseDocuments and deletions = three_deletes
      and uid = "''u''", OF 1 2 4] 1 3
  show ?thesis by (simp add: catch_type_error_def plain_error_def)
qed

section \<open>Pending deletions in a full sync\<close>

lemma remove_queued_blobs_cases:
  assumes "\<forall>msg. storage_remove e (ids D_documentPaths) \<noteq> RemoveThrows msg"
  shows "\<exists>s0. fst (remove_queued_blobs e ids) = Inr s0"
  using assms by (auto simp: remove_queued_blobs_def split: remove_result.splits)

lemma pending_sync_fails:
  assumes "syncStatus p \<noteq> Syncing" and "\<not> isAuthLoading p" and "isOnline p"
    and "user p = Some uid" and "schema e = SchemaOk"
    and "fetchDataFromSupabase e = Inr remote"
    and "\<forall>msg. storage_remove e (deletedIds p D_documentPaths) \<noteq> RemoveThrows msg"
    and "flatDeletes (deletedIds p) t \<noteq> []"
  shows "deleteDataFromSupabase e (flatDeletes (deletedIds p)) uid = ([], Inl catch_type_error)"
    and "sync_try e p uid
          = ([(Syncing, Some MsgFetching), (Syncing, Some MsgSendingDeletions)],
             snd (remove_queued_blobs e (deletedIds p)), Inl catch_type_error)"
proof -
  from assms(6) have cl: "client e" by (auto simp: fetchDataFromSupabase_def split: if_splits)
  from assms(8) have np: "t \<noteq> Profiles" by auto
  show d: "deleteDataFromSupabase e (flatDeletes (deletedIds p)) uid = ([], Inl catch_type_error)"
    by (rule deleteData_throws[where t = t and deletions = "flatDeletes (deletedIds p)", OF cl np assms(8)])
  from remove_queued_blobs_cases[of e "deletedIds p", OF assms(7)] obtain s0 tr0
    where b: "remove_queued_blobs e (deletedIds p) = (Inr s0, tr0)"
    by (cases "remove_queued_blobs e (deletedIds p)") auto
  have "list_ex (\<lambda>t. flatDeletes (deletedIds p) t \<noteq> []) tables"
    using assms(8) all_tables[of t] by (auto simp: list_ex_iff)
  from sync_push_delete_failed[OF b this d]
  have "sync_push e p uid remote (fetchDeletionsFromSupabase e)
          = ([(Syncing, Some MsgSendingDeletions)], tr0 @ [], Inl catch_type_error)" .
  from sync_try_of_push[OF assms(6) this] b
  show "sync_try e p uid
          = ([(Syncing, Some MsgFetching), (Syncing, Some MsgSendingDeletions)],
             snd (remove_queued_blobs e (deletedIds p)), Inl catch_type_error)"
    by simp
qed

text \<open>
  Claim C8, on the code. In a full sync that has passed its guards, the schema probe and
  the fetch and has a pending deletion in some table, the deletion push throws the
  \<open>TypeError\<close> of the \<open>.catch\<close> call before any remote delete is made, so no remote
  delete can fail; the error carries no table; the sync ends with the status \<open>error\<close>;
  \<open>onDeletionsSynced\<close> is not called, and every pending id is still pending after the
  run.
\<close>

theorem pending_deletions_abort_sync:
  assumes "syncStatus p \<noteq> Syncing" and "\<not> isAuthLoading p" and "isOnline p"
    and "user p = Some uid" and "schema e = SchemaOk"
    and "fetchDataFromSupabase e = Inr remote"
    and "\<forall>msg. storage_remove e (deletedIds p D_documentPaths) \<noteq> RemoveThrows msg"
    and "flatDeletes (deletedIds p) t \<noteq> []"
  shows "deleteDataFromSupabase e (flatDeletes (deletedIds p)) uid = ([], Inl catch_type_error)
       \<and> err_table catch_type_error = None
       \<and> ops (manualSync e p) = snd (remove_queued_blobs e (deletedIds p))
       \<and> last (events (manualSync e p)) = (Error, Some (catch_message catch_type_error))
       \<and> dataSynced (manualSync e p) = None
       \<and> deletionsSynced (manualSync e p) = None
       \<and> pending_after (deletedIds p) (manualSync e p) = deletedIds p"
  using pending_sync_fails(1)[where t = t, OF assms]
    manualSync_failed[OF assms(1-5) pending_sync_fails(2)[where t = t, OF assms]]
  by (simp add: pending_after_def catch_type_error_def plain_error_def)

lemma failing_gate:
  "syncStatus pending_props \<noteq> Syncing" "\<not> isAuthLoading pending_props" "isOnline pending_props"
  "user pending_props = Some ''u''" "schema failing_env = SchemaOk"
  by (simp_all add: pending_props_def failing_env_def quiet_env_def)

lemma failing_fetch: "fetchDataFromSupabase failing_env = Inr no_rows"
  by (simp add: fetchDataFromSupabase_def failing_env_def quiet_env_def fetch_names_def no_rows_def)

theorem pending_deletions_abort_sync_witness:
  "delete_rows failing_env Sessions = Some ''boom''
   \<and> pending_ids D_documents = [''d1''] \<and> pending_ids D_sessions = [''s1'']
   \<and> deleteDataFromSupabase failing_env (flatDeletes pending_ids) ''u'' = ([], Inl catch_type_error)
   \<and> ops (manualSync failing_env pending_props) = []
   \<and> last (events (manualSync failing_env pending_props))
       = (Error, Some (Text ''supabase.from(...).insert(...).select(...).catch is not a function''))
   \<and> deletionsSynced (manualSync failing_env pending_props) = None
   \<and> pending_after pending_ids (manualSync failing_env pending_props) = pending_ids"
proof -
  have p: "deletedIds pending_props = pending_ids" by (simp add: pending_props_def)
  have 7: "\<forall>msg. storage_remove failing_env (deletedIds pending_props D_documentPaths) \<noteq> RemoveThrows msg"
    by (simp add: failing_env_def quiet_env_def)
  have 8: "flatDeletes (deletedIds pending_props) Sessions \<noteq> []"
    by (simp add: p pending_ids_def getInitialDeletedIds_def)
  have b: "snd (remove_queued_blobs failing_env pending_ids) = []"
    by (simp add: remove_queued_blobs_def pending_ids_def getInitialDeletedIds_def)
  have c: "catch_message catch_type_error
      = Text ''supabase.from(...).insert(...).select(...).catch is not a function''"
    by (simp add: catch_message_def catch_type_error_def plain_error_def)
  have i: "delete_rows failing_env Sessions = Some ''boom''"
    "pending_ids D_documents = [''d1'']" "pending_ids D_sessions = [''s1'']"
    by (simp_all add: failing_env_def quiet_env_def pending_ids_def getInitialDeletedIds_def)
  from pending_deletions_abort_sync[where t = Sessions, OF failing_gate failing_fetch 7 8] b c i
  show ?thesis by (simp add: p)
qed

section \<open>The retention sweep\<close>

lemma archive_doc_throws: "archive_doc doc st = None"
  by (simp add: archive_doc_def db_put_def)

lemma sweep_loop_keeps_state:
  "metadata (sweep_loop rm docs st) = metadata st
   \<and> documents_state (sweep_loop rm docs st) = documents_state st"
proof (induction docs arbitrary: st)
  case Nil
  then show ?case by simp
next
  case (Cons doc docs)
  show ?case
  proof (cases "rm [storagePath doc]")
    case RemoveOk
    then show ?thesis by (simp add: archive_doc_throws Let_def)
  next
    case (RemoveError code)
    with Cons.IH[of "st\<lparr>removals := removals st @ [[storagePath doc]]\<rparr>"]
    show ?thesis by (simp add: archive_doc_throws Let_def)
  next
    case (RemoveThrows msg)
    then show ?thesis by (simp add: Let_def)
  qed
qed

lemma sweep_loop_first_removal:
  assumes "rm [storagePath doc] = RemoveOk"
  shows "sweep_loop rm (doc # docs) st = st\<lparr>removals := removals st @ [[storagePath doc]]\<rparr>"
  using assms by (simp add: archive_doc_throws Let_def)

text \<open>
  Claim C10, on the code. The sweep asks the remote storage to remove the blob of a
  synced document older than 24 hours, and when that succeeds (or the blob is already
  gone) it calls \<open>db.put\<close> without a key on a store that has no key path: the put throws,
  the \<open>catch\<close> of the sweep ends the loop, and \<open>setDocuments\<close> is not reached. So the
  sweep never changes the stored metadata nor the \<open>documents\<close> state: no document becomes
  \<open>archived\<close>, also not the one whose blob it has just removed.
\<close>

theorem sweep_archives_nothing:
  "metadata (cleanupCloudStorage e online now st) = metadata st
   \<and> documents_state (cleanupCloudStorage e online now st) = documents_state st"
proof (cases "\<not> online \<or> \<not> client e")
  case True
  then show ?thesis by (simp add: cleanupCloudStorage_def)
next
  case False
  then have "cleanupCloudStorage e online now st
      = sweep_loop (storage_remove e) (filter (is_expired_doc now) (map snd (metadata st))) st"
    by (simp add: cleanupCloudStorage_def Let_def)
  then show ?thesis by (simp only: sweep_loop_keeps_state)
qed

theorem sweep_archives_nothing_witness:
  "localState old_doc = DocSynced \<and> 100000000 - addedAt old_doc > ONE_DAY
   \<and> storage_remove quiet_env [storagePath old_doc] = RemoveOk
   \<and> removals (cleanupCloudStorage quiet_env True 100000000 old_store) = [[''u/k1/d1'']]
   \<and> metadata (cleanupCloudStorage quiet_env True 100000000 old_store) = [(''d1'', old_doc)]
   \<and> documents_state (cleanupCloudStorage quiet_env True 100000000 old_store) = [old_doc]"
proof -
  have 1: "localState old_doc = DocSynced" "100000000 - addedAt old_doc > ONE_DAY"
    "storage_remove quiet_env [storagePath old_doc] = RemoveOk"
    by (simp_all add: old_doc_def ONE_DAY_def quiet_env_def)
  have e: "filter (is_expired_doc 100000000) (map snd (metadata old_store)) = [old_doc]"
    using 1 by (simp add: old_store_def is_expired_doc_def)
  have c: "client quiet_env" by (simp add: quiet_env_def)
  have "cleanupCloudStorage quiet_env True 100000000 old_store
          = old_store\<lparr>removals := removals old_store @ [[storagePath old_doc]]\<rparr>"
    using sweep_loop_first_removal[where rm = "storage_remove quiet_env" and doc = old_doc
        and docs = "[]" and st = old_store, OF 1(3)] c
    by (simp add: cleanupCloudStorage_def Let_def e)
  then have r: "removals (cleanupCloudStorage quiet_env True 100000000 old_store) = [[''u/k1/d1'']]"
    by (simp add: old_store_def old_doc_def)
  from sweep_archives_nothing[of quiet_env True 100000000 old_store] 1 r
  show ?thesis by (simp add: old_store_def)
qed

end
